theory Spec2Isabelle
  imports Main "HOL-Library.Product_Lexorder" "HOL-Library.List_Lexorder" "HOL-Library.Char_ord"
begin

section \<open>Python values and failures\<close>

text \<open>
  The exceptions that the modelled functions can let escape. A function that may raise
  returns \<open>py_error + 'a\<close>, the exception on the left.
\<close>

datatype py_error =
    IndexError
  | KeyError string
  | TypeError
  | AttributeError
  | InvalidVersion string
  | ConnectionError
  | JSONDecodeError
  | UsageError string
  | ValueError

section \<open>Strings: \<open>str.split\<close> and \<open>pathlib.Path.name\<close>\<close>

text \<open>
  \<open>s.split(sep)\<close> for a one-character separator: the pieces between the occurrences of
  the separator, empty pieces kept; the result is never empty.
\<close>

fun split_on :: "char \<Rightarrow> string \<Rightarrow> string list" where
  "split_on c [] = [[]]"
| "split_on c (x # xs) =
     (if x = c then [] # split_on c xs
      else (case split_on c xs of [] \<Rightarrow> [[x]] | y # ys \<Rightarrow> (x # y) # ys))"

text \<open>Python list indexing with a non-negative index: out of range raises IndexError.\<close>

definition py_index :: "'a list \<Rightarrow> nat \<Rightarrow> py_error + 'a" where
  "py_index xs i = (if i < length xs then Inr (xs ! i) else Inl IndexError)"

text \<open>
  \<open>Path(p).name\<close> on a POSIX system: the path is cut at \<open>/\<close>, empty components and
  \<open>.\<close> components are dropped, and the name is the last component left, or the empty
  string when none is left.
\<close>

definition path_parts :: "string \<Rightarrow> string list" where
  "path_parts p = filter (\<lambda>x. x \<noteq> [] \<and> x \<noteq> ''.'') (split_on CHR ''/'' p)"

definition path_name :: "string \<Rightarrow> string" where
  "path_name p = (case path_parts p of [] \<Rightarrow> [] | x # xs \<Rightarrow> last (x # xs))"

section \<open>Core utilities: \<open>get_filename\<close>\<close>

text \<open>
  \<open>get_filename(path_string, orientation)\<close>. The function has no \<open>else\<close> branch for the
  orientation: falling off its end returns Python's \<open>None\<close>, the \<open>None\<close> of the option.
\<close>

definition get_filename :: "string \<Rightarrow> string \<Rightarrow> py_error + string option" where
  "get_filename path_string orientation =
     (case (if CHR '';'' \<in> set path_string
            then (case py_index (split_on CHR '';'' path_string) 0 of
                    Inl e \<Rightarrow> Inl e
                  | Inr f \<Rightarrow>
                      (case py_index (split_on CHR '';'' path_string) 1 of
                         Inl e \<Rightarrow> Inl e
                       | Inr r \<Rightarrow> Inr (path_name f, path_name r)))
            else Inr (path_name path_string, ''NA'')) of
        Inl e \<Rightarrow> Inl e
      | Inr (fwd, rev') \<Rightarrow>
          (if orientation = ''fwd'' then Inr (Some fwd)
           else if orientation = ''rev'' then Inr (Some rev')
           else Inr None))"

section \<open>Configuration store: \<open>Settings\<close>\<close>

text \<open>
  A \<open>Settings\<close> object has the attributes of its own dictionary \<open>__dict__\<close>, here
  \<open>attrs\<close>, and the attributes that are found on its class and on \<open>object\<close>, whose
  names are \<open>inherited\<close>: \<open>hasattr(self, key)\<close> is true for both kinds. What \<open>print\<close>
  writes is collected, in order, in \<open>printed\<close>. The values are Python values without
  classes: \<open>None\<close>, strings, integers, booleans, functions and dictionaries.
\<close>

datatype pyval =
    PyNone
  | PyStr string
  | PyInt int
  | PyBool bool
  | PyMethod string
  | PyDict "(string \<times> pyval) list"

record settings_state =
  attrs :: "string \<rightharpoonup> pyval"
  inherited :: "string list"
  printed :: "string list"

definition hasattr :: "settings_state \<Rightarrow> string \<Rightarrow> bool" where
  "hasattr s key = (attrs s key \<noteq> None \<or> key \<in> set (inherited s))"

text \<open>
  \<open>setattr(self, key, value)\<close> stores the value in the object's dictionary, where the
  attribute lookup finds it before the class, except for the three names that the type
  handles itself: \<open>__class__\<close> accepts only a class and raises \<open>TypeError\<close> for every
  other value, \<open>__weakref__\<close> cannot be written, and \<open>__dict__\<close> accepts only a dictionary,
  which then replaces all attributes of the object.
\<close>

definition special_attributes :: "string list" where
  "special_attributes = [''__class__'', ''__dict__'', ''__weakref__'']"

definition setattr :: "settings_state \<Rightarrow> string \<Rightarrow> pyval \<Rightarrow> py_error + settings_state" where
  "setattr s key val =
     (if key = ''__class__'' then Inl TypeError
      else if key = ''__weakref__'' then Inl AttributeError
      else if key = ''__dict__'' then
        (case val of PyDict d \<Rightarrow> Inr (s\<lparr>attrs := map_of d\<rparr>) | _ \<Rightarrow> Inl TypeError)
      else Inr (s\<lparr>attrs := (attrs s)(key \<mapsto> val)\<rparr>))"

definition setting_not_found :: "string \<Rightarrow> string" where
  "setting_not_found key = ''Warning: Setting '' @ [CHR 0x27] @ key @ [CHR 0x27] @ '' not found.''"

text \<open>
  \<open>Settings.update(updates)\<close>: the loop over \<open>updates.items()\<close>, the items of the
  dictionary in their order as a list of pairs. The settings object is the process-wide
  singleton: where \<open>setattr\<close> raises, the object stays as the loop has left it. The
  result is the object after the call and the exception, if one was raised.
\<close>

fun settings_update ::
  "settings_state \<Rightarrow> (string \<times> pyval) list \<Rightarrow> settings_state \<times> py_error option" where
  "settings_update s [] = (s, None)"
| "settings_update s ((key, val) # rest) =
     (if hasattr s key
      then (case setattr s key val of
              Inl e \<Rightarrow> (s, Some e)
            | Inr s' \<Rightarrow> settings_update s' rest)
      else settings_update (s\<lparr>printed := printed s @ [setting_not_found key]\<rparr>) rest)"

text \<open>
  \<open>Settings()\<close>: \<open>__init__\<close> sets one attribute; the other names are those of the class
  \<open>Settings\<close> and of \<open>object\<close>.
\<close>

definition Settings_init :: settings_state where
  "Settings_init =
     \<lparr>attrs = [''local_json_schema'' \<mapsto> PyNone],
      inherited =
        [''update'', ''__init__'', ''__module__'', ''__doc__'', ''__dict__'', ''__weakref__'',
         ''__class__'', ''__delattr__'', ''__dir__'', ''__eq__'', ''__format__'', ''__ge__'',
         ''__getattribute__'', ''__getstate__'', ''__gt__'', ''__hash__'', ''__init_subclass__'',
         ''__le__'', ''__lt__'', ''__ne__'', ''__new__'', ''__reduce__'', ''__reduce_ex__'',
         ''__repr__'', ''__setattr__'', ''__sizeof__'', ''__str__'', ''__subclasshook__''],
      printed = []\<rparr>"

section \<open>HTTP replies and JSON values\<close>

text \<open>
  What \<open>requests.get(url)\<close> can do: raise a connection error, or return a response with a
  status code and a body. The body is given by what \<open>response.json()\<close> returns for it,
  \<open>None\<close> when the body is not JSON and \<open>json()\<close> raises. The network is a function from
  the URL to the reply.
\<close>

datatype json =
    JNull
  | JBool bool
  | JNum int
  | JStr string
  | JList "json list"
  | JObj "(string \<times> json) list"

datatype http_reply = Unreachable | Reply nat "json option"

type_synonym network = "string \<Rightarrow> http_reply"

text \<open>\<open>len(x)\<close>, iteration over \<open>x\<close> and \<open>x[key]\<close> with a string key, on parsed JSON.\<close>

fun py_len :: "json \<Rightarrow> py_error + nat" where
  "py_len (JList xs) = Inr (length xs)"
| "py_len (JObj kvs) = Inr (length kvs)"
| "py_len (JStr s) = Inr (length s)"
| "py_len _ = Inl TypeError"

fun py_iter :: "json \<Rightarrow> py_error + json list" where
  "py_iter (JList xs) = Inr xs"
| "py_iter (JObj kvs) = Inr (map (\<lambda>kv. JStr (fst kv)) kvs)"
| "py_iter (JStr s) = Inr (map (\<lambda>c. JStr [c]) s)"
| "py_iter _ = Inl TypeError"

fun py_getitem :: "json \<Rightarrow> string \<Rightarrow> py_error + json" where
  "py_getitem (JObj kvs) k = (case map_of kvs k of None \<Rightarrow> Inl (KeyError k) | Some v \<Rightarrow> Inr v)"
| "py_getitem _ k = Inl TypeError"

section \<open>Legacy ENA portal client\<close>

text \<open>
  \<open>ENA.__get_json__(url)\<close>: the parsed body for a 200 reply with a non-empty body, the
  empty list for a 200 reply with an empty body, and nothing (Python's \<open>None\<close>, by falling
  off the end) for any other status.
\<close>

definition get_json :: "network \<Rightarrow> string \<Rightarrow> py_error + json option" where
  "get_json net url =
     (case net url of
        Unreachable \<Rightarrow> Inl ConnectionError
      | Reply status body \<Rightarrow>
          if status = 200 then
            (case body of
               None \<Rightarrow> Inl JSONDecodeError
             | Some j \<Rightarrow>
                 (case py_len j of
                    Inl e \<Rightarrow> Inl e
                  | Inr n \<Rightarrow> if n > 0 then Inr (Some j) else Inr (Some (JList []))))
          else Inr None)"

definition portal_base_url :: string where
  "portal_base_url = ''https://www.ebi.ac.uk/ena/portal/api/''"

text \<open>
  The loop of \<open>list_fields\<close> reads \<open>field['columnId']\<close> and \<open>field['description']\<close> of
  every element for the log; it raises where one of them is missing.
\<close>

fun log_fields :: "json list \<Rightarrow> py_error + unit" where
  "log_fields [] = Inr ()"
| "log_fields (field # rest) =
     (case py_getitem field ''columnId'' of
        Inl e \<Rightarrow> Inl e
      | Inr _ \<Rightarrow>
          (case py_getitem field ''description'' of
             Inl e \<Rightarrow> Inl e
           | Inr _ \<Rightarrow> log_fields rest))"

definition list_fields :: "network \<Rightarrow> string \<Rightarrow> py_error + json" where
  "list_fields net result_type =
     (case get_json net
             (portal_base_url @ ''returnFields?dataPortal=ena&format=json&result='' @ result_type) of
        Inl e \<Rightarrow> Inl e
      | Inr None \<Rightarrow> Inl TypeError
      | Inr (Some json_resp) \<Rightarrow>
          (case py_iter json_resp of
             Inl e \<Rightarrow> Inl e
           | Inr fs \<Rightarrow>
               (case log_fields fs of
                  Inl e \<Rightarrow> Inl e
                | Inr _ \<Rightarrow> Inr json_resp)))"

text \<open>The comprehension \<open>[field["columnId"] for field in all_fields]\<close>.\<close>

fun column_ids :: "json list \<Rightarrow> py_error + json list" where
  "column_ids [] = Inr []"
| "column_ids (field # rest) =
     (case py_getitem field ''columnId'' of
        Inl e \<Rightarrow> Inl e
      | Inr c \<Rightarrow> (case column_ids rest of Inl e \<Rightarrow> Inl e | Inr cs \<Rightarrow> Inr (c # cs)))"

text \<open>
  The loop \<open>for field in fields: if field not in fields: return False\<close>, over the
  remaining elements, the whole list being the second argument.
\<close>

fun check_fields_loop :: "json list \<Rightarrow> json list \<Rightarrow> bool" where
  "check_fields_loop [] flds = True"
| "check_fields_loop (field # rest) flds =
     (if field \<notin> set flds then False else check_fields_loop rest flds)"

text \<open>
  \<open>ENAPortalAPI._check_fields(result_type, fields)\<close>. The parameter \<open>fields\<close>, here
  \<open>flds\<close>, is overwritten by the comprehension before it is read; \<open>flds'\<close> is the
  variable after the assignment.
\<close>

definition check_fields :: "network \<Rightarrow> string \<Rightarrow> string list \<Rightarrow> py_error + bool" where
  "check_fields net result_type flds =
     (case list_fields net result_type of
        Inl e \<Rightarrow> Inl e
      | Inr all_fields \<Rightarrow>
          (case py_iter all_fields of
             Inl e \<Rightarrow> Inl e
           | Inr fs \<Rightarrow>
               (case column_ids fs of
                  Inl e \<Rightarrow> Inl e
                | Inr flds' \<Rightarrow> Inr (check_fields_loop flds' flds'))))"

text \<open>A network in which the field discovery for \<open>read_run\<close> answers with two fields.\<close>

definition example_fields_net :: network where
  "example_fields_net url =
     (if url = ''https://www.ebi.ac.uk/ena/portal/api/returnFields?dataPortal=ena&format=json&result=read_run''
      then Reply 200 (Some (JList
        [JObj [(''columnId'', JStr ''run_accession''), (''description'', JStr ''accession number'')],
         JObj [(''columnId'', JStr ''fastq_ftp''), (''description'', JStr ''FTP links'')]]))
      else Reply 404 None)"

section \<open>Validation orchestrator (current variant)\<close>

text \<open>
  The validator engine \<open>AMDirValidator\<close> is used by \<open>run_validation\<close> and not defined
  with it: its constructor, its \<open>parsing_ok\<close> attribute and its methods are parameters,
  acting on a validator state of any type. The methods are taken to return; what they do
  to the validator, the \<open>parsing_ok\<close> flag included, is left open. Every method call is
  recorded, in order, in \<open>calls\<close>.
\<close>

datatype validator_call =
    ValidateSchema
  | CheckDuplicateRows
  | CheckColumns
  | CheckDuplicateDois
  | CheckMultiValues "string list"
  | CheckSampleAccession "string option"
  | ToMarkdown
  | ToRich

record 'v validator_engine =
  construct :: "settings_state \<Rightarrow> string \<Rightarrow> string \<Rightarrow> 'v"
  parsing_ok :: "'v \<Rightarrow> bool"
  perform :: "validator_call \<Rightarrow> 'v \<Rightarrow> 'v"

text \<open>The keyword arguments of \<open>run_validation\<close>.\<close>

record validation_args =
  dataset :: string
  schema :: string
  schema_check :: bool
  local_json_schema :: "string option"
  line_dup :: bool
  columns :: bool
  doi :: bool
  multi_values :: "string list"
  online_archive :: bool
  remote :: "string option"
  markdown :: bool
  verbose :: bool

text \<open>
  The state that one invocation works on: the singleton \<open>config.settings\<close>, whether
  \<open>warnings.filterwarnings("ignore")\<close> was called, the validator \<open>v\<close>, and the calls made
  on it so far.
\<close>

record 'v validation_run =
  config_settings :: settings_state
  warnings_ignored :: bool
  validator :: 'v
  calls :: "validator_call list"

definition invoke :: "'v validator_engine \<Rightarrow> validator_call \<Rightarrow> 'v validation_run \<Rightarrow> 'v validation_run" where
  "invoke eng c r = r\<lparr>validator := perform eng c (validator r), calls := calls r @ [c]\<rparr>"

text \<open>One line \<open>if flag and v.parsing_ok: v.check()\<close>; the flag is read from the current \<open>v\<close>.\<close>

definition check_if :: "'v validator_engine \<Rightarrow> bool \<Rightarrow> validator_call \<Rightarrow> 'v validation_run \<Rightarrow> 'v validation_run" where
  "check_if eng flag c r = (if flag \<and> parsing_ok eng (validator r) then invoke eng c r else r)"

text \<open>
  The first statement: \<open>if local_json_schema: config.settings.update(...)\<close>. For an
  optional path Python's \<open>None\<close> and the empty string are false. The key of this call
  is none of the names on which \<open>setattr\<close> raises, so the call returns and the settings
  after it are all that remains.
\<close>

fun configure :: "settings_state \<Rightarrow> string option \<Rightarrow> settings_state" where
  "configure settings0 None = settings0"
| "configure settings0 (Some p) =
     (if p \<noteq> [] then fst (settings_update settings0 [(''local_json_schema'', PyStr p)])
      else settings0)"

definition run_validation ::
  "'v validator_engine \<Rightarrow> settings_state \<Rightarrow> validation_args \<Rightarrow> 'v validation_run" where
  "run_validation eng settings0 a =
     (let s1 = configure settings0 (local_json_schema a);
          r0 = \<lparr>config_settings = s1, warnings_ignored = (\<not> verbose a),
                validator = construct eng s1 (schema a) (dataset a), calls = []\<rparr>;
          r1 = check_if eng (schema_check a) ValidateSchema r0;
          r2 = check_if eng (line_dup a) CheckDuplicateRows r1;
          r3 = check_if eng (columns a) CheckColumns r2;
          r4 = check_if eng (doi a) CheckDuplicateDois r3;
          r5 = check_if eng (multi_values a \<noteq> []) (CheckMultiValues (multi_values a)) r4;
          r6 = check_if eng (online_archive a) (CheckSampleAccession (remote a)) r5
      in if markdown a then invoke eng ToMarkdown r6 else invoke eng ToRich r6)"

fun is_check :: "validator_call \<Rightarrow> bool" where
  "is_check ToMarkdown = False"
| "is_check ToRich = False"
| "is_check _ = True"

section \<open>Command line: mutually exclusive options\<close>

text \<open>\<open>sep.join(xs)\<close>.\<close>

fun join :: "string \<Rightarrow> string list \<Rightarrow> string" where
  "join sep [] = []"
| "join sep [x] = x"
| "join sep (x # y # ys) = x @ sep @ join sep (y # ys)"

text \<open>
  A parameter of a command is a plain \<open>click\<close> argument or option, or a
  \<open>MutuallyExclusiveOption\<close> with its name and the names it excludes (a set in the
  source; here in the order in which \<open>join\<close> iterates it).
\<close>

datatype param =
    Argument string
  | Option string
  | MutuallyExclusiveOption string "string list"

fun param_name :: "param \<Rightarrow> string" where
  "param_name (Argument n) = n"
| "param_name (Option n) = n"
| "param_name (MutuallyExclusiveOption n ex) = n"

definition illegal_usage :: "string \<Rightarrow> string list \<Rightarrow> string" where
  "illegal_usage n ex =
     ''Illegal usage: `'' @ n @ ''` is mutually exclusive with arguments `'' @ join '', '' ex @ ''`.''"

text \<open>
  \<open>handle_parse_result(ctx, opts, args)\<close>. \<open>opts\<close> is the dictionary of the options found
  on the command line, by name. The handler of \<open>click.Option\<close> and \<open>click.Argument\<close>
  (the \<open>super\<close> call) is a parameter: it gives the parameter's value and the remaining
  arguments, or fails.
\<close>

type_synonym ('a, 'r) base_handler =
  "param \<Rightarrow> (string \<times> 'a) list \<Rightarrow> string list \<Rightarrow> py_error + ('r \<times> string list)"

fun handle_parse_result ::
  "('a, 'r) base_handler \<Rightarrow> param \<Rightarrow> (string \<times> 'a) list \<Rightarrow> string list
     \<Rightarrow> py_error + ('r \<times> string list)" where
  "handle_parse_result base (MutuallyExclusiveOption n ex) opts args =
     (if (\<exists>m \<in> set ex. map_of opts m \<noteq> None) \<and> map_of opts n \<noteq> None
      then Inl (UsageError (illegal_usage n ex))
      else base (MutuallyExclusiveOption n ex) opts args)"
| "handle_parse_result base p opts args = base p opts args"

text \<open>
  A command processes its parameters one after the other and calls its function with the
  values only when all of them were handled.
\<close>

fun process_params ::
  "('a, 'r) base_handler \<Rightarrow> param list \<Rightarrow> (string \<times> 'a) list \<Rightarrow> string list
     \<Rightarrow> py_error + (string \<times> 'r) list" where
  "process_params base [] opts args = Inr []"
| "process_params base (p # ps) opts args =
     (case handle_parse_result base p opts args of
        Inl e \<Rightarrow> Inl e
      | Inr (v, args') \<Rightarrow>
          (case process_params base ps opts args' of
             Inl e \<Rightarrow> Inl e
           | Inr kw \<Rightarrow> Inr ((param_name p, v) # kw)))"

text \<open>
  What \<open>click\<close> alone does with the parameters of a command, each handled by the handler
  of \<open>click.Option\<close> or \<open>click.Argument\<close>: the processing without the exclusion.
\<close>

fun click_params ::
  "('a, 'r) base_handler \<Rightarrow> param list \<Rightarrow> (string \<times> 'a) list \<Rightarrow> string list
     \<Rightarrow> py_error + (string \<times> 'r) list" where
  "click_params base [] opts args = Inr []"
| "click_params base (p # ps) opts args =
     (case base p opts args of
        Inl e \<Rightarrow> Inl e
      | Inr (v, args') \<Rightarrow>
          (case click_params base ps opts args' of
             Inl e \<Rightarrow> Inl e
           | Inr kw \<Rightarrow> Inr ((param_name p, v) # kw)))"

text \<open>The parameters of \<open>convert\<close>, in the order of their declaration.\<close>

definition convert_params :: "param list" where
  "convert_params =
     [Argument ''samples'', Argument ''table_name'', Option ''tables'',
      MutuallyExclusiveOption ''libraries'' [''librarymetadata''],
      MutuallyExclusiveOption ''librarymetadata'' [''libraries''],
      Option ''output'', Option ''bibliography'', Option ''curl'', Option ''aspera'',
      Option ''fetchngs'', Option ''sratoolkit'', Option ''eager'', Option ''ameta'',
      Option ''mag'', Option ''taxprofiler'']"

text \<open>
  The command \<open>convert\<close>: its function calls \<open>run_convert\<close>, the conversion engine, which
  is a parameter.
\<close>

definition convert ::
  "('a, 'r) base_handler \<Rightarrow> ((string \<times> 'r) list \<Rightarrow> 'out) \<Rightarrow> (string \<times> 'a) list \<Rightarrow> string list
     \<Rightarrow> py_error + 'out" where
  "convert base run_convert opts args =
     (case process_params base convert_params opts args of
        Inl e \<Rightarrow> Inl e
      | Inr kwargs \<Rightarrow> Inr (run_convert kwargs))"

text \<open>A base handler that accepts everything: the value of a parameter is what \<open>opts\<close> has.\<close>

definition accept_all :: "(string, string option) base_handler" where
  "accept_all p opts args = Inr (map_of opts (param_name p), args)"

fun is_usage_error :: "py_error \<Rightarrow> bool" where
  "is_usage_error (UsageError msg) = True"
| "is_usage_error _ = False"

text \<open>
  A validator engine whose input never parses, and arguments that ask for every check and
  for console output.
\<close>

definition unparsed_engine :: "unit validator_engine" where
  "unparsed_engine =
     \<lparr>construct = (\<lambda>s sch ds. ()), parsing_ok = (\<lambda>v. False), perform = (\<lambda>c v. v)\<rparr>"

definition every_check_args :: validation_args where
  "every_check_args =
     \<lparr>dataset = ''samples.tsv'', schema = ''schema.json'', schema_check = True,
      local_json_schema = None, line_dup = True, columns = True, doi = True,
      multi_values = [''sample_host''], online_archive = True, remote = None,
      markdown = False, verbose = False\<rparr>"

section \<open>Versions: \<open>packaging.version\<close>\<close>

text \<open>
  \<open>packaging.version.Version\<close> is a library class; its behaviour is written out here as
  the library defines it (release 22 and later, where a string that is no version raises
  \<open>InvalidVersion\<close> in \<open>Version(s)\<close> and in \<open>version.parse(s)\<close> alike). A version string is
  matched, ignoring case and surrounding whitespace, by the regular expression
  \<^verbatim>\<open>v?(?:(?:(?P<epoch>[0-9]+)!)?(?P<release>[0-9]+(?:\.[0-9]+)*)
     (?P<pre>[-_\.]?(?P<pre_l>alpha|a|beta|b|preview|pre|c|rc)[-_\.]?(?P<pre_n>[0-9]+)?)?
     (?P<post>(?:-(?P<post_n1>[0-9]+))|(?:[-_\.]?(?P<post_l>post|rev|r)[-_\.]?(?P<post_n2>[0-9]+)?))?
     (?P<dev>[-_\.]?(?P<dev_l>dev)[-_\.]?(?P<dev_n>[0-9]+)?)?)
     (?:\+(?P<local>[a-z0-9]+(?:[-_\.][a-z0-9]+)*))?\<close>
  The matcher below returns, for each part of the expression, every way of matching a
  prefix of the input, in the order in which a backtracking matcher tries them (greedy
  repetitions longest first, alternatives left to right); the match of the whole string is
  the first way that leaves nothing. A character is a code point below 256; the blank
  characters are those that the whitespace class of Python's regular expressions
  matches there.
\<close>

definition is_digit :: "char \<Rightarrow> bool" where
  "is_digit c = (c \<in> set ''0123456789'')"

definition is_alnum :: "char \<Rightarrow> bool" where
  "is_alnum c = (c \<in> set ''abcdefghijklmnopqrstuvwxyz0123456789'')"

definition is_space :: "char \<Rightarrow> bool" where
  "is_space c = (c \<in> set [CHR 0x09, CHR 0x0A, CHR 0x0B, CHR 0x0C, CHR 0x0D,
                           CHR 0x1C, CHR 0x1D, CHR 0x1E, CHR 0x1F, CHR 0x20, CHR 0x85, CHR 0xA0])"

definition is_sep :: "char \<Rightarrow> bool" where
  "is_sep c = (c \<in> set ''-_.'')"

definition lower_char :: "char \<Rightarrow> char" where
  "lower_char c =
     (case map_of (zip ''ABCDEFGHIJKLMNOPQRSTUVWXYZ'' ''abcdefghijklmnopqrstuvwxyz'') c of
        None \<Rightarrow> c | Some l \<Rightarrow> l)"

definition strip :: "string \<Rightarrow> string" where
  "strip s = rev (dropWhile is_space (rev (dropWhile is_space s)))"

text \<open>\<open>int(s)\<close> for a string of decimal digits.\<close>

definition digit_val :: "char \<Rightarrow> nat" where
  "digit_val c = (case map_of (zip ''0123456789'' [0, 1, 2, 3, 4, 5, 6, 7, 8, 9]) c of
                    None \<Rightarrow> 0 | Some d \<Rightarrow> d)"

definition int_of_digits :: "string \<Rightarrow> nat" where
  "int_of_digits s = foldl (\<lambda>a c. 10 * a + digit_val c) 0 s"

text \<open>A repetition \<open>[class]+\<close>: the non-empty prefixes in the class, longest first.\<close>

definition many1 :: "(char \<Rightarrow> bool) \<Rightarrow> string \<Rightarrow> (string \<times> string) list" where
  "many1 cls s =
     map (\<lambda>n. (take n s, drop n s)) (rev [1 ..< Suc (length (takeWhile cls s))])"

text \<open>A literal word; an optional separator \<open>[-_\.]?\<close>; an alternative of words.\<close>

definition lit :: "string \<Rightarrow> string \<Rightarrow> string list" where
  "lit w s = (if take (length w) s = w then [drop (length w) s] else [])"

definition sep_opt :: "string \<Rightarrow> string list" where
  "sep_opt s = (case s of [] \<Rightarrow> [s] | c # r \<Rightarrow> if is_sep c then [r, s] else [s])"

definition one_of :: "string list \<Rightarrow> string \<Rightarrow> (string \<times> string) list" where
  "one_of ws s = concat (map (\<lambda>w. map (\<lambda>r. (w, r)) (lit w s)) ws)"

definition number_opt :: "string \<Rightarrow> (string option \<times> string) list" where
  "number_opt s = map (\<lambda>(d, r). (Some d, r)) (many1 is_digit s) @ [(None, s)]"

text \<open>
  The starred groups \<open>(?:\.[0-9]+)*\<close> and \<open>(?:[-_\.][a-z0-9]+)*\<close>. Every round takes at
  least two characters, so the length of the input bounds the number of rounds; the first
  argument is that bound.
\<close>

fun more_release :: "nat \<Rightarrow> string \<Rightarrow> (string list \<times> string) list" where
  "more_release 0 s = [([], s)]"
| "more_release (Suc k) s =
     concat (map (\<lambda>r. concat (map (\<lambda>(d, r'). map (\<lambda>(ds, r''). (d # ds, r'')) (more_release k r'))
                                   (many1 is_digit r)))
                 (lit ''.'' s))
     @ [([], s)]"

fun more_local :: "nat \<Rightarrow> string \<Rightarrow> (string list \<times> string) list" where
  "more_local 0 s = [([], s)]"
| "more_local (Suc k) s =
     (case s of
        [] \<Rightarrow> []
      | c # r \<Rightarrow>
          if is_sep c
          then concat (map (\<lambda>(d, r'). map (\<lambda>(ds, r''). (d # ds, r'')) (more_local k r'))
                           (many1 is_alnum r))
          else [])
     @ [([], s)]"

text \<open>The groups of a match: the strings that \<open>match.group\<close> returns, \<open>None\<close> if unset.\<close>

record version_match =
  g_epoch :: "string option"
  g_release :: "string list"
  g_pre_l :: "string option"
  g_pre_n :: "string option"
  g_post_n1 :: "string option"
  g_post_l :: "string option"
  g_post_n2 :: "string option"
  g_dev_l :: "string option"
  g_dev_n :: "string option"
  g_local :: "string list option"

definition epoch_opt :: "string \<Rightarrow> (string option \<times> string) list" where
  "epoch_opt s =
     concat (map (\<lambda>(d, r). map (\<lambda>r'. (Some d, r')) (lit ''!'' r)) (many1 is_digit s))
     @ [(None, s)]"

definition release_part :: "string \<Rightarrow> (string list \<times> string) list" where
  "release_part s =
     concat (map (\<lambda>(d, r). map (\<lambda>(ds, r'). (d # ds, r')) (more_release (length r) r))
                 (many1 is_digit s))"

text \<open>A group \<open>[-_\.]?(words)[-_\.]?([0-9]+)?\<close>: the word and the number.\<close>

definition letter_number :: "string list \<Rightarrow> string \<Rightarrow> ((string \<times> string option) \<times> string) list" where
  "letter_number ws s =
     concat (map (\<lambda>r1.
       concat (map (\<lambda>(l, r2).
         concat (map (\<lambda>r3. map (\<lambda>(n, r4). ((l, n), r4)) (number_opt r3)) (sep_opt r2)))
         (one_of ws r1)))
       (sep_opt s))"

definition pre_opt :: "string \<Rightarrow> ((string \<times> string option) option \<times> string) list" where
  "pre_opt s =
     map (\<lambda>(x, r). (Some x, r))
         (letter_number [''alpha'', ''a'', ''beta'', ''b'', ''preview'', ''pre'', ''c'', ''rc''] s)
     @ [(None, s)]"

text \<open>The post group: \<open>(post_n1, post_l, post_n2)\<close>.\<close>

definition post_opt ::
  "string \<Rightarrow> ((string option \<times> string option \<times> string option) \<times> string) list" where
  "post_opt s =
     concat (map (\<lambda>r. map (\<lambda>(d, r'). ((Some d, None, None), r')) (many1 is_digit r)) (lit ''-'' s))
     @ map (\<lambda>((l, n), r). ((None, Some l, n), r)) (letter_number [''post'', ''rev'', ''r''] s)
     @ [((None, None, None), s)]"

definition dev_opt :: "string \<Rightarrow> ((string \<times> string option) option \<times> string) list" where
  "dev_opt s =
     map (\<lambda>(x, r). (Some x, r)) (letter_number [''dev''] s) @ [(None, s)]"

definition local_opt :: "string \<Rightarrow> (string list option \<times> string) list" where
  "local_opt s =
     concat (map (\<lambda>r.
       concat (map (\<lambda>(d, r'). map (\<lambda>(ds, r''). (Some (d # ds), r'')) (more_local (length r') r'))
                   (many1 is_alnum r)))
       (lit ''+'' s))
     @ [(None, s)]"

definition version_pattern :: "string \<Rightarrow> (version_match \<times> string) list" where
  "version_pattern s0 =
     concat (map (\<lambda>s1.
     concat (map (\<lambda>(ep, s2).
     concat (map (\<lambda>(rel, s3).
     concat (map (\<lambda>(pr, s4).
     concat (map (\<lambda>((pn1, pl, pn2), s5).
     concat (map (\<lambda>(dv, s6).
     map (\<lambda>(lc, s7).
       (\<lparr>g_epoch = ep, g_release = rel,
         g_pre_l = map_option fst pr, g_pre_n = Option.bind pr snd,
         g_post_n1 = pn1, g_post_l = pl, g_post_n2 = pn2,
         g_dev_l = map_option fst dv, g_dev_n = Option.bind dv snd,
         g_local = lc\<rparr>, s7))
       (local_opt s6))
       (dev_opt s5)))
       (post_opt s4)))
       (pre_opt s3)))
       (release_part s2)))
       (epoch_opt s1)))
       (lit ''v'' s0 @ [s0]))"

text \<open>\<open>_regex.search(version)\<close>: the first way to match the whole string, if there is one.\<close>

definition regex_search :: "string \<Rightarrow> version_match option" where
  "regex_search s =
     (case filter (\<lambda>(m, r). r = []) (version_pattern (strip (map lower_char s))) of
        [] \<Rightarrow> None
      | (m, r) # ms \<Rightarrow> Some m)"

text \<open>The parsed version, \<open>_Version\<close>, and \<open>_parse_letter_version\<close>, \<open>_parse_local_version\<close>.\<close>

datatype local_segment = LocalInt nat | LocalStr string

record version =
  epoch :: nat
  release :: "nat list"
  pre :: "(string \<times> nat) option"
  post :: "(string \<times> nat) option"
  dev :: "(string \<times> nat) option"
  local_part :: "local_segment list option"

definition number_or_zero :: "string option \<Rightarrow> nat" where
  "number_or_zero n = (case n of None \<Rightarrow> 0 | Some d \<Rightarrow> int_of_digits d)"

definition parse_letter_version :: "string option \<Rightarrow> string option \<Rightarrow> (string \<times> nat) option" where
  "parse_letter_version letter number =
     (case letter of
        Some l \<Rightarrow>
          Some (if l = ''alpha'' then ''a''
                else if l = ''beta'' then ''b''
                else if l \<in> set [''c'', ''pre'', ''preview''] then ''rc''
                else if l \<in> set [''rev'', ''r''] then ''post''
                else l,
                number_or_zero number)
      | None \<Rightarrow>
          (case number of
             Some d \<Rightarrow> Some (''post'', int_of_digits d)
           | None \<Rightarrow> None))"

definition parse_local_version :: "string list option \<Rightarrow> local_segment list option" where
  "parse_local_version lc =
     map_option (map (\<lambda>part. if list_all is_digit part then LocalInt (int_of_digits part)
                               else LocalStr part)) lc"

definition invalid_version :: "string \<Rightarrow> string" where
  "invalid_version s = ''Invalid version: '' @ [CHR 0x27] @ s @ [CHR 0x27]"

definition Version :: "string \<Rightarrow> py_error + version" where
  "Version s =
     (case regex_search s of
        None \<Rightarrow> Inl (InvalidVersion (invalid_version s))
      | Some m \<Rightarrow>
          Inr \<lparr>epoch = number_or_zero (g_epoch m),
               release = map int_of_digits (g_release m),
               pre = parse_letter_version (g_pre_l m) (g_pre_n m),
               post = parse_letter_version (g_post_l m)
                        (case g_post_n1 m of Some d \<Rightarrow> Some d | None \<Rightarrow> g_post_n2 m),
               dev = parse_letter_version (g_dev_l m) (g_dev_n m),
               local_part = parse_local_version (g_local m)\<rparr>)"

text \<open>
  The comparison key \<open>_cmpkey\<close>. Its components are ordered as Python orders them:
  tuples and strings lexicographically, \<open>NegativeInfinity\<close> below and \<open>Infinity\<close> above
  everything. The two infinities are the tags 0 and 2 of a triple whose tag 1 carries a
  (letter, number) pair; a local segment is \<open>(NegativeInfinity, s)\<close> for a string, tag 0,
  and \<open>(i, "")\<close> for a number, tag 1.
\<close>

type_synonym bounded_pair = "nat \<times> string \<times> nat"

type_synonym version_key =
  "nat \<times> nat list \<times> bounded_pair \<times> bounded_pair \<times> bounded_pair \<times> nat \<times> bounded_pair list"

definition NegativeInfinity :: bounded_pair where
  "NegativeInfinity = (0, [], 0)"

definition Infinity :: bounded_pair where
  "Infinity = (2, [], 0)"

definition pair_key :: "string \<times> nat \<Rightarrow> bounded_pair" where
  "pair_key p = (1, fst p, snd p)"

definition segment_key :: "local_segment \<Rightarrow> bounded_pair" where
  "segment_key x = (case x of LocalInt i \<Rightarrow> (1, [], i) | LocalStr s \<Rightarrow> (0, s, 0))"

definition cmpkey :: "version \<Rightarrow> version_key" where
  "cmpkey v =
     (epoch v,
      rev (dropWhile (\<lambda>x. x = 0) (rev (release v))),
      (if pre v = None \<and> post v = None \<and> dev v \<noteq> None then NegativeInfinity
       else case pre v of None \<Rightarrow> Infinity | Some p \<Rightarrow> pair_key p),
      (case post v of None \<Rightarrow> NegativeInfinity | Some p \<Rightarrow> pair_key p),
      (case dev v of None \<Rightarrow> Infinity | Some p \<Rightarrow> pair_key p),
      (case local_part v of None \<Rightarrow> (0, []) | Some segs \<Rightarrow> (1, map segment_key segs)))"

section \<open>Release tags\<close>

text \<open>
  \<open>get_latest_tag(tags)\<close>. \<open>sorted\<close> first applies the key function to every tag, in
  order, and raises where \<open>Version\<close> raises; the sort is stable; \<open>[-1]\<close> reads the last
  element and raises \<open>IndexError\<close> on the empty list, which the \<open>except InvalidVersion\<close>
  clause does not catch.
\<close>

fun version_keys :: "string list \<Rightarrow> py_error + (version_key \<times> string) list" where
  "version_keys [] = Inr []"
| "version_keys (x # xs) =
     (case Version x of
        Inl e \<Rightarrow> Inl e
      | Inr v \<Rightarrow>
          (case version_keys xs of
             Inl e \<Rightarrow> Inl e
           | Inr ks \<Rightarrow> Inr ((cmpkey v, x) # ks)))"

definition py_last :: "'a list \<Rightarrow> py_error + 'a" where
  "py_last xs = (if xs = [] then Inl IndexError else Inr (last xs))"

definition get_latest_tag :: "string list \<Rightarrow> py_error + string" where
  "get_latest_tag tags =
     (case version_keys tags of
        Inl (InvalidVersion msg) \<Rightarrow>
          if ''master'' \<in> set tags then Inr ''master''
          else Inl (InvalidVersion ''No valid tags found'')
      | Inl e \<Rightarrow> Inl e
      | Inr ks \<Rightarrow> py_last (map snd (sort_key fst ks)))"

text \<open>
  \<open>get_amdir_tags()\<close>. The result is the returned list with the warnings logged. The two
  comprehensions are evaluated one after the other; \<open>version.parse\<close> is \<open>Version\<close> on a
  string and a type error on any other value.
\<close>

definition tags_url :: string where
  "tags_url = ''https://api.github.com/repos/SPAAM-community/AncientMetagenomeDir/tags''"

definition tags_warning :: string where
  "tags_warning = ''Could not fetch tags from AncientMetagenomeDir. Defaulting to master. Metadata may not yet be officially released.''"

fun tag_names :: "json list \<Rightarrow> py_error + json list" where
  "tag_names [] = Inr []"
| "tag_names (tag # rest) =
     (case py_getitem tag ''name'' of
        Inl e \<Rightarrow> Inl e
      | Inr n \<Rightarrow>
          (case tag_names rest of
             Inl e \<Rightarrow> Inl e
           | Inr ns \<Rightarrow> Inr (if n \<noteq> JStr ''latest'' then n # ns else ns)))"

fun version_parse :: "json \<Rightarrow> py_error + version" where
  "version_parse (JStr s) = Version s"
| "version_parse _ = Inl TypeError"

fun released_tags :: "json list \<Rightarrow> py_error + json list" where
  "released_tags [] = Inr []"
| "released_tags (tag # rest) =
     (case version_parse tag of
        Inl e \<Rightarrow> Inl e
      | Inr v \<Rightarrow>
          (case version_parse (JStr ''v22.09'') of
             Inl e \<Rightarrow> Inl e
           | Inr v0 \<Rightarrow>
               (case released_tags rest of
                  Inl e \<Rightarrow> Inl e
                | Inr ts \<Rightarrow> Inr (if cmpkey v \<ge> cmpkey v0 then tag # ts else ts))))"

definition get_amdir_tags :: "network \<Rightarrow> py_error + (json list \<times> string list)" where
  "get_amdir_tags net =
     (case net tags_url of
        Unreachable \<Rightarrow> Inl ConnectionError
      | Reply status body \<Rightarrow>
          if status = 200 then
            (case body of
               None \<Rightarrow> Inl JSONDecodeError
             | Some j \<Rightarrow>
                 (case py_iter j of
                    Inl e \<Rightarrow> Inl e
                  | Inr ts \<Rightarrow>
                      (case tag_names ts of
                         Inl e \<Rightarrow> Inl e
                       | Inr tags \<Rightarrow>
                           (case released_tags tags of
                              Inl e \<Rightarrow> Inl e
                            | Inr r \<Rightarrow> Inr (r, [])))))
          else Inr ([JStr ''master''], [tags_warning]))"

text \<open>
  The key under which a tag is ordered, where it parses as a version, and the test
  ``parses as a version and is at least \<open>v22.09\<close>''.
\<close>

definition tag_key :: "string \<Rightarrow> version_key option" where
  "tag_key t = (case Version t of Inl e \<Rightarrow> None | Inr v \<Rightarrow> Some (cmpkey v))"

definition at_least_v22_09 :: "string \<Rightarrow> bool" where
  "at_least_v22_09 t =
     (case tag_key t of
        None \<Rightarrow> False
      | Some k \<Rightarrow> (case tag_key ''v22.09'' of None \<Rightarrow> False | Some k0 \<Rightarrow> k0 \<le> k))"

text \<open>The tag list of the specification's example, as the hosting service would send it.\<close>

definition tag_object :: "string \<Rightarrow> json" where
  "tag_object n = JObj [(''name'', JStr n), (''zipball_url'', JStr (''https://example.org/'' @ n))]"

definition example_tags_net :: "string list \<Rightarrow> network" where
  "example_tags_net names url =
     (if url = tags_url then Reply 200 (Some (JList (map tag_object names))) else Reply 404 None)"

text \<open>A network that cannot be reached, and one that answers every request with status 503.\<close>

definition unreachable_net :: network where
  "unreachable_net url = Unreachable"

definition unavailable_net :: network where
  "unavailable_net url = Reply 503 None"

section \<open>Tables: \<open>pandas.DataFrame\<close>\<close>

text \<open>
  A table has row labels (its index) and named columns, each column a list of cells with
  one cell per row. A cell is a string, an integer or a missing value. A column whose
  cells are read through the \<open>.str\<close> accessor must have the \<open>object\<close> type, which it has
  when it is empty or holds a string; on any other column the accessor raises
  \<open>AttributeError\<close>. Under \<open>.str\<close>, a cell that is no string gives a missing value.
\<close>

datatype cell = Str string | Num int | NaN

record frame =
  frame_index :: "nat list"
  frame_columns :: "(string \<times> cell list) list"

definition well_formed :: "frame \<Rightarrow> bool" where
  "well_formed df = list_all (\<lambda>cv. length (snd cv) = length (frame_index df)) (frame_columns df)"

text \<open>\<open>df.shape[0]\<close>, \<open>df[c]\<close>, \<open>df[[c1, c2, ...]]\<close> and \<open>df.drop(c, axis=1)\<close>.\<close>

definition shape0 :: "frame \<Rightarrow> nat" where
  "shape0 df = length (frame_index df)"

definition getitem :: "frame \<Rightarrow> string \<Rightarrow> py_error + cell list" where
  "getitem df c = (case map_of (frame_columns df) c of None \<Rightarrow> Inl (KeyError c) | Some vs \<Rightarrow> Inr vs)"

fun select_columns :: "frame \<Rightarrow> string list \<Rightarrow> py_error + (string \<times> cell list) list" where
  "select_columns df [] = Inr []"
| "select_columns df (c # cs) =
     (case getitem df c of
        Inl e \<Rightarrow> Inl e
      | Inr vs \<Rightarrow>
          (case select_columns df cs of
             Inl e \<Rightarrow> Inl e
           | Inr rest \<Rightarrow> Inr ((c, vs) # rest)))"

definition getitems :: "frame \<Rightarrow> string list \<Rightarrow> py_error + frame" where
  "getitems df cs =
     (case select_columns df cs of
        Inl e \<Rightarrow> Inl e
      | Inr sel \<Rightarrow> Inr \<lparr>frame_index = frame_index df, frame_columns = sel\<rparr>)"

definition drop_column :: "frame \<Rightarrow> string \<Rightarrow> py_error + frame" where
  "drop_column df c =
     (if map_of (frame_columns df) c = None then Inl (KeyError c)
      else Inr (df\<lparr>frame_columns := filter (\<lambda>cv. fst cv \<noteq> c) (frame_columns df)\<rparr>))"

fun is_Str :: "cell \<Rightarrow> bool" where
  "is_Str (Str s) = True"
| "is_Str _ = False"

definition str_accessor :: "cell list \<Rightarrow> py_error + cell list" where
  "str_accessor vs = (if vs = [] \<or> list_ex is_Str vs then Inr vs else Inl AttributeError)"

section \<open>Merge-feasibility check\<close>

text \<open>
  \<open>series.str.split(",", expand=True).stack().reset_index(level=0).set_index("level_0")\<close>:
  one entry per piece of every string cell, under the label of the cell's row; the padding
  of the shorter rows and the cells that are no strings are missing values, which
  \<open>stack\<close> drops.
\<close>

definition split_stack :: "nat list \<Rightarrow> cell list \<Rightarrow> (nat \<times> string) list" where
  "split_stack labels vs =
     concat (map (\<lambda>lv. case snd lv of
                           Str s \<Rightarrow> map (\<lambda>p. (fst lv, p)) (split_on CHR '','' s)
                         | _ \<Rightarrow> [])
                 (zip labels vs))"

text \<open>
  \<open>left.join(right)\<close>, a left join on the row labels: every entry of the left side, once
  for each row of the right side with its label, and once with missing values where there
  is none. An entry of the result is the label, the piece, and the position of the row of
  the right side.
\<close>

definition positions_of :: "nat \<Rightarrow> nat list \<Rightarrow> nat list" where
  "positions_of l labels = filter (\<lambda>i. labels ! i = l) [0 ..< length labels]"

definition join_index :: "(nat \<times> string) list \<Rightarrow> nat list \<Rightarrow> (nat \<times> string \<times> nat option) list" where
  "join_index left labels =
     concat (map (\<lambda>lp. case positions_of (fst lp) labels of
                           [] \<Rightarrow> [(fst lp, snd lp, None)]
                         | i # is \<Rightarrow> map (\<lambda>j. (fst lp, snd lp, Some j)) (i # is))
                 left)"

definition joined_frame :: "(nat \<times> string \<times> nat option) list \<Rightarrow> frame \<Rightarrow> frame" where
  "joined_frame entries right =
     \<lparr>frame_index = map fst entries,
      frame_columns =
        (''archive_accession'', map (\<lambda>e. Str (fst (snd e))) entries) #
        map (\<lambda>cv. (fst cv, map (\<lambda>e. case snd (snd e) of None \<Rightarrow> NaN | Some j \<Rightarrow> snd cv ! j) entries))
            (frame_columns right)\<rparr>"

text \<open>
  \<open>left.merge(right, left_on=a, right_on=b)\<close>, an inner join: the pairs of a row of the
  left and a row of the right side whose keys are equal. Only the number of rows of the
  merged table is read, so the result is given by these pairs of positions. Merging a key
  column of numbers or missing values only with a column of strings raises \<open>ValueError\<close>.
\<close>

definition merge_pairs :: "cell list \<Rightarrow> cell list \<Rightarrow> (nat \<times> nat) list" where
  "merge_pairs ls rs =
     concat (map (\<lambda>i. map (\<lambda>j. (i, j)) (filter (\<lambda>j. ls ! i = rs ! j) [0 ..< length rs]))
                 [0 ..< length ls])"

definition merge_on :: "cell list \<Rightarrow> cell list \<Rightarrow> py_error + (nat \<times> nat) list" where
  "merge_on ls rs =
     (if ls \<noteq> [] \<and> rs \<noteq> [] \<and> list_ex is_Str ls \<noteq> list_ex is_Str rs then Inl ValueError
      else Inr (merge_pairs ls rs))"

text \<open>The expansion of the samples, shared by \<open>is_merge_size_zero\<close>.\<close>

definition stacked_samples :: "frame \<Rightarrow> py_error + frame" where
  "stacked_samples samples =
     (case getitem samples ''archive_accession'' of
        Inl e \<Rightarrow> Inl e
      | Inr acc \<Rightarrow>
          (case str_accessor acc of
             Inl e \<Rightarrow> Inl e
           | Inr acc' \<Rightarrow>
               (case drop_column samples ''archive_accession'' of
                  Inl e \<Rightarrow> Inl e
                | Inr others \<Rightarrow>
                    Inr (joined_frame
                           (join_index (split_stack (frame_index samples) acc') (frame_index others))
                           others))))"

definition is_merge_size_zero :: "frame \<Rightarrow> frame \<Rightarrow> string \<Rightarrow> py_error + bool" where
  "is_merge_size_zero samples library table_name =
     (if shape0 samples = 0 \<or> shape0 library = 0 then Inr True
      else
        (case stacked_samples samples of
           Inl e \<Rightarrow> Inl e
         | Inr stacked \<Rightarrow>
             (case getitems stacked
                     (if table_name \<in> set [''ancientmetagenome-environmental'']
                      then [''archive_accession'']
                      else [''archive_accession'', ''sample_host'']) of
                Inl e \<Rightarrow> Inl e
              | Inr right \<Rightarrow>
                  (case getitem library ''archive_sample_accession'' of
                     Inl e \<Rightarrow> Inl e
                   | Inr lkey \<Rightarrow>
                       (case getitem right ''archive_accession'' of
                          Inl e \<Rightarrow> Inl e
                        | Inr rkey \<Rightarrow>
                            (case merge_on lkey rkey of
                               Inl e \<Rightarrow> Inl e
                             | Inr library_selected \<Rightarrow>
                                 if shape0 samples \<noteq> 0 \<and> length library_selected = 0
                                 then Inr True
                                 else Inr False))))))"

text \<open>A samples table of two rows and a libraries table of two rows.\<close>

definition example_samples :: frame where
  "example_samples =
     \<lparr>frame_index = [0, 1],
      frame_columns =
        [(''sample_name'', [Str ''S 1'', Str ''S/2'']),
         (''sample_host'', [Str ''Homo sapiens'', Str ''Homo sapiens'']),
         (''archive_accession'', [Str ''SRS1,SRS2'', Str ''SRS3''])]\<rparr>"

definition example_library_key :: "cell list \<Rightarrow> frame" where
  "example_library_key key =
     \<lparr>frame_index = [0, 1],
      frame_columns = [(''archive_sample_accession'', key),
                       (''archive_data_accession'', [Str ''SRR1'', Str ''SRR2''])]\<rparr>"

text \<open>A samples table of one row that has no column \<open>sample_host\<close>.\<close>

definition hostless_samples :: frame where
  "hostless_samples =
     \<lparr>frame_index = [0],
      frame_columns =
        [(''sample_name'', [Str ''S1'']),
         (''archive_accession'', [Str ''SRS1''])]\<rparr>"

definition empty_frame :: frame where
  "empty_frame = \<lparr>frame_index = [], frame_columns = []\<rparr>"

section \<open>Pipeline table shapers\<close>



























































section \<open>Properties of \<open>split_on\<close>\<close>

lemma split_on_nonempty: "split_on c xs \<noteq> []"
  by (induction xs) (auto split: list.splits)

lemma split_on_no_sep: "c \<notin> set xs \<Longrightarrow> split_on c xs = [xs]"
  by (induction xs) auto

lemma split_on_append:
  "c \<notin> set a \<Longrightarrow> split_on c (a @ c # b) = a # split_on c b"
  by (induction a) auto

lemma split_on_hd: "hd (split_on c xs) = takeWhile (\<lambda>x. x \<noteq> c) xs"
  by (induction xs) (auto split: list.splits simp: split_on_nonempty)

lemma split_on_tl:
  "c \<in> set xs \<Longrightarrow> tl (split_on c xs) = split_on c (tl (dropWhile (\<lambda>x. x \<noteq> c) xs))"
  by (induction xs) (auto split: list.splits simp: split_on_nonempty)

lemma split_on_length: "length (split_on c xs) = Suc (count_list xs c)"
  by (induction xs) (auto split: list.splits simp: split_on_nonempty)

lemma split_on_second:
  assumes "c \<in> set xs"
  shows "split_on c xs ! Suc 0 =
           takeWhile (\<lambda>x. x \<noteq> c) (tl (dropWhile (\<lambda>x. x \<noteq> c) xs))"
proof -
  have "split_on c xs ! Suc 0 = hd (tl (split_on c xs))"
    using split_on_length [of c xs] assms
    by (cases "split_on c xs"; cases "tl (split_on c xs)")
       (auto simp: hd_conv_nth count_list_0_iff)
  then show ?thesis using assms by (simp add: split_on_tl split_on_hd)
qed

lemma py_index_split_0:
  "py_index (split_on c xs) 0 = Inr (takeWhile (\<lambda>x. x \<noteq> c) xs)"
  using split_on_hd [of c xs] split_on_nonempty [of c xs]
  by (simp add: py_index_def hd_conv_nth)

lemma py_index_split_1:
  assumes "c \<in> set xs"
  shows "py_index (split_on c xs) (Suc 0) =
           Inr (takeWhile (\<lambda>x. x \<noteq> c) (tl (dropWhile (\<lambda>x. x \<noteq> c) xs)))"
proof -
  have "count_list xs c \<noteq> 0" using assms by (simp add: count_list_0_iff)
  then have "Suc 0 < length (split_on c xs)" by (simp add: split_on_length)
  then show ?thesis using assms by (simp add: py_index_def split_on_second)
qed

section \<open>Filename extraction\<close>

text \<open>
  Claim C4. For a path string with a semicolon, \<open>get_filename\<close> returns the basename of
  the first semicolon-separated path (the text before the first semicolon) for \<open>fwd\<close> and
  the basename of the second one (the text between the first semicolon and the next, or
  the end) for \<open>rev\<close>. Without a semicolon, \<open>fwd\<close> returns the basename of the whole
  string and \<open>rev\<close> the literal \<open>NA\<close>. No index error can arise. The three examples of the
  specification are part of the statement.
\<close>

theorem get_filename_paths:
  "(CHR '';'' \<in> set p \<longrightarrow>
      get_filename p ''fwd'' = Inr (Some (path_name (takeWhile (\<lambda>x. x \<noteq> CHR '';'') p))) \<and>
      get_filename p ''rev'' =
        Inr (Some (path_name (takeWhile (\<lambda>x. x \<noteq> CHR '';'')
                     (tl (dropWhile (\<lambda>x. x \<noteq> CHR '';'') p)))))) \<and>
   (CHR '';'' \<notin> set p \<longrightarrow>
      get_filename p ''fwd'' = Inr (Some (path_name p)) \<and>
      get_filename p ''rev'' = Inr (Some ''NA'')) \<and>
   get_filename ''a/b/r1.fq.gz;a/b/r2.fq.gz'' ''fwd'' = Inr (Some ''r1.fq.gz'') \<and>
   get_filename ''a/b/r1.fq.gz;a/b/r2.fq.gz'' ''rev'' = Inr (Some ''r2.fq.gz'') \<and>
   get_filename ''a/b/r1.fq.gz'' ''rev'' = Inr (Some ''NA'')"
proof (intro conjI impI)
  assume h: "CHR '';'' \<in> set p"
  show "get_filename p ''fwd'' = Inr (Some (path_name (takeWhile (\<lambda>x. x \<noteq> CHR '';'') p)))"
    using h by (simp add: get_filename_def py_index_split_0 py_index_split_1)
  show "get_filename p ''rev'' =
        Inr (Some (path_name (takeWhile (\<lambda>x. x \<noteq> CHR '';'')
                     (tl (dropWhile (\<lambda>x. x \<noteq> CHR '';'') p)))))"
    using h by (simp add: get_filename_def py_index_split_0 py_index_split_1)
next
  assume h: "CHR '';'' \<notin> set p"
  show "get_filename p ''fwd'' = Inr (Some (path_name p))"
    using h by (simp add: get_filename_def)
  show "get_filename p ''rev'' = Inr (Some ''NA'')"
    using h by (simp add: get_filename_def)
next
  show "get_filename ''a/b/r1.fq.gz;a/b/r2.fq.gz'' ''fwd'' = Inr (Some ''r1.fq.gz'')"
    by code_simp
  show "get_filename ''a/b/r1.fq.gz;a/b/r2.fq.gz'' ''rev'' = Inr (Some ''r2.fq.gz'')"
    by code_simp
  show "get_filename ''a/b/r1.fq.gz'' ''rev'' = Inr (Some ''NA'')"
    by code_simp
qed

theorem get_filename_paths_witness:
  "CHR '';'' \<in> set ''x/r1.fq;y/r2.fq'' \<and> CHR '';'' \<notin> set ''x/r1.fq'' \<and>
   get_filename ''x/r1.fq;y/r2.fq'' ''fwd'' = Inr (Some ''r1.fq'') \<and>
   get_filename ''x/r1.fq;y/r2.fq'' ''rev'' = Inr (Some ''r2.fq'') \<and>
   get_filename ''x/r1.fq'' ''fwd'' = Inr (Some ''r1.fq'') \<and>
   get_filename ''x/r1.fq'' ''rev'' = Inr (Some ''NA'')"
proof -
  have a: "CHR '';'' \<in> set ''x/r1.fq;y/r2.fq''" by simp
  have b: "CHR '';'' \<notin> set ''x/r1.fq''" by simp
  have n1: "path_name (takeWhile (\<lambda>x. x \<noteq> CHR '';'') ''x/r1.fq;y/r2.fq'') = ''r1.fq''"
    by code_simp
  have n2: "path_name (takeWhile (\<lambda>x. x \<noteq> CHR '';'')
              (tl (dropWhile (\<lambda>x. x \<noteq> CHR '';'') ''x/r1.fq;y/r2.fq''))) = ''r2.fq''"
    by code_simp
  have n3: "path_name ''x/r1.fq'' = ''r1.fq''" by code_simp
  from get_filename_paths [of "''x/r1.fq;y/r2.fq''"] a n1 n2
  have c: "get_filename ''x/r1.fq;y/r2.fq'' ''fwd'' = Inr (Some ''r1.fq'') \<and>
           get_filename ''x/r1.fq;y/r2.fq'' ''rev'' = Inr (Some ''r2.fq'')"
    by metis
  from get_filename_paths [of "''x/r1.fq''"] b n3
  have d: "get_filename ''x/r1.fq'' ''fwd'' = Inr (Some ''r1.fq'') \<and>
           get_filename ''x/r1.fq'' ''rev'' = Inr (Some ''NA'')"
    by metis
  from a b c d show ?thesis by blast
qed

text \<open>
  Claim C10. With an orientation that is neither \<open>fwd\<close> nor \<open>rev\<close>, \<open>get_filename\<close>
  returns Python's \<open>None\<close>: no filename, no \<open>NA\<close>, no exception. The two named
  orientations are the only ones for which a value is returned.
\<close>

theorem get_filename_other_orientation:
  "(orientation \<noteq> ''fwd'' \<and> orientation \<noteq> ''rev'' \<longrightarrow>
      get_filename path_string orientation = Inr None) \<and>
   ((\<exists>n. get_filename path_string orientation = Inr (Some n)) \<longleftrightarrow>
      orientation = ''fwd'' \<or> orientation = ''rev'')"
  by (cases "CHR '';'' \<in> set path_string")
     (auto simp add: get_filename_def py_index_split_0 py_index_split_1)

theorem get_filename_other_orientation_witness:
  "''both'' \<noteq> ''fwd'' \<and> ''both'' \<noteq> ''rev'' \<and>
   get_filename ''a/b/r1.fq.gz;a/b/r2.fq.gz'' ''both'' = Inr None"
  using get_filename_other_orientation [of "''both''" "''a/b/r1.fq.gz;a/b/r2.fq.gz''"]
  by simp

section \<open>Configuration store\<close>

lemma setattr_ordinary:
  "key \<notin> set special_attributes \<Longrightarrow> setattr s key val = Inr (s\<lparr>attrs := (attrs s)(key \<mapsto> val)\<rparr>)"
  by (simp add: setattr_def special_attributes_def)

lemma settings_update_step_set:
  "hasattr s key \<Longrightarrow> key \<notin> set special_attributes \<Longrightarrow>
     settings_update s ((key, val) # rest) =
       settings_update (s\<lparr>attrs := (attrs s)(key \<mapsto> val)\<rparr>) rest"
  by (simp add: setattr_ordinary)

lemma settings_update_step_skip:
  "\<not> hasattr s key \<Longrightarrow>
     settings_update s ((key, val) # rest) =
       settings_update (s\<lparr>printed := printed s @ [setting_not_found key]\<rparr>) rest"
  by simp

lemma hasattr_set: "hasattr s key \<Longrightarrow> hasattr (s\<lparr>attrs := (attrs s)(key \<mapsto> val)\<rparr>) k = hasattr s k"
  by (auto simp: hasattr_def)

lemma hasattr_printed: "hasattr (s\<lparr>printed := p\<rparr>) k = hasattr s k"
  by (simp add: hasattr_def)

lemma settings_update_ordinary:
  "\<forall>k \<in> fst ` set updates. k \<notin> set special_attributes \<Longrightarrow>
     snd (settings_update s updates) = None \<and>
     inherited (fst (settings_update s updates)) = inherited s \<and>
     (\<forall>k. hasattr (fst (settings_update s updates)) k = hasattr s k) \<and>
     (\<forall>k. k \<notin> fst ` set updates \<longrightarrow> attrs (fst (settings_update s updates)) k = attrs s k) \<and>
     printed (fst (settings_update s updates)) =
       printed s @ map setting_not_found (filter (\<lambda>k. \<not> hasattr s k) (map fst updates))"
proof (induction updates arbitrary: s)
  case Nil
  show ?case by simp
next
  case (Cons kv rest)
  obtain key val where kv: "kv = (key, val)" by (cases kv)
  have sp: "key \<notin> set special_attributes" using Cons.prems kv by simp
  have rs: "\<forall>k \<in> fst ` set rest. k \<notin> set special_attributes" using Cons.prems by simp
  show ?case
  proof (cases "hasattr s key")
    case True
    let ?s' = "s\<lparr>attrs := (attrs s)(key \<mapsto> val)\<rparr>"
    have st: "settings_update s (kv # rest) = settings_update ?s' rest"
      unfolding kv by (rule settings_update_step_set [OF True sp])
    have h: "hasattr ?s' k = hasattr s k" for k by (rule hasattr_set [OF True])
    from Cons.IH [OF rs, of ?s'] show ?thesis
      unfolding st using True kv by (simp add: h)
  next
    case False
    let ?s' = "s\<lparr>printed := printed s @ [setting_not_found key]\<rparr>"
    have st: "settings_update s (kv # rest) = settings_update ?s' rest"
      unfolding kv by (rule settings_update_step_skip [OF False])
    have h: "hasattr ?s' k = hasattr s k" for k by (rule hasattr_printed)
    from Cons.IH [OF rs, of ?s'] show ?thesis
      unfolding st using False kv by (simp add: h)
  qed
qed

lemma settings_update_set:
  "\<forall>k \<in> fst ` set updates. k \<notin> set special_attributes \<Longrightarrow>
   distinct (map fst updates) \<Longrightarrow> (k, v) \<in> set updates \<Longrightarrow> hasattr s k \<Longrightarrow>
     attrs (fst (settings_update s updates)) k = Some v"
proof (induction updates arbitrary: s)
  case Nil
  then show ?case by simp
next
  case (Cons kv rest)
  obtain key val where kv: "kv = (key, val)" by (cases kv)
  have sp: "key \<notin> set special_attributes" using Cons.prems(1) kv by simp
  have rs: "\<forall>k \<in> fst ` set rest. k \<notin> set special_attributes" using Cons.prems(1) by simp
  have dr: "distinct (map fst rest)" using Cons.prems(2) by simp
  show ?case
  proof (cases "(k, v) = (key, val)")
    case True
    let ?s' = "s\<lparr>attrs := (attrs s)(key \<mapsto> val)\<rparr>"
    have hk: "hasattr s key" using True Cons.prems(4) by simp
    have st: "settings_update s (kv # rest) = settings_update ?s' rest"
      unfolding kv by (rule settings_update_step_set [OF hk sp])
    have "k \<notin> fst ` set rest" using True Cons.prems(2) kv by auto
    with settings_update_ordinary [OF rs, of ?s']
    have "attrs (fst (settings_update ?s' rest)) k = attrs ?s' k" by blast
    then show ?thesis unfolding st using True by simp
  next
    case False
    then have mem: "(k, v) \<in> set rest" using Cons.prems(3) kv by auto
    show ?thesis
    proof (cases "hasattr s key")
      case True
      let ?s' = "s\<lparr>attrs := (attrs s)(key \<mapsto> val)\<rparr>"
      have st: "settings_update s (kv # rest) = settings_update ?s' rest"
        unfolding kv by (rule settings_update_step_set [OF True sp])
      have "hasattr ?s' k" using Cons.prems(4) by (simp add: hasattr_set [OF True])
      from Cons.IH [OF rs dr mem this] show ?thesis unfolding st .
    next
      case nh: False
      let ?s' = "s\<lparr>printed := printed s @ [setting_not_found key]\<rparr>"
      have st: "settings_update s (kv # rest) = settings_update ?s' rest"
        unfolding kv by (rule settings_update_step_skip [OF nh])
      have "hasattr ?s' k" using Cons.prems(4) by (simp add: hasattr_printed)
      from Cons.IH [OF rs dr mem this] show ?thesis unfolding st .
    qed
  qed
qed

text \<open>
  Claim C7, as the code has it. \<open>__class__\<close> names an existing attribute of the settings
  object, and the update neither overwrites it nor warns: \<open>setattr\<close> raises \<open>TypeError\<close>.
  A dictionary given for \<open>__dict__\<close> replaces the attributes of the object, so that
  \<open>local_json_schema\<close>, which the mapping does not name, is lost.
\<close>

theorem settings_update_special_attributes:
  "hasattr Settings_init ''__class__'' \<and>
   snd (settings_update Settings_init [(''__class__'', PyInt 5)]) = Some TypeError \<and>
   attrs (fst (settings_update Settings_init [(''__class__'', PyInt 5)])) ''__class__'' = None \<and>
   printed (fst (settings_update Settings_init [(''__class__'', PyInt 5)])) = [] \<and>
   attrs Settings_init ''local_json_schema'' = Some PyNone \<and>
   snd (settings_update Settings_init [(''__dict__'', PyDict [])]) = None \<and>
   attrs (fst (settings_update Settings_init [(''__dict__'', PyDict [])])) ''local_json_schema'' = None"
  by (simp add: Settings_init_def hasattr_def setattr_def)

text \<open>
  Claim C7, amended. For a mapping (a dictionary: its keys are distinct) passed to
  \<open>Settings.update\<close>, none of whose keys is \<open>__class__\<close>, \<open>__dict__\<close> or \<open>__weakref__\<close>: the
  call returns; every key that names an existing attribute has that attribute set to the
  mapping's value, whatever the value is; a key that names no attribute creates none and
  is answered by one printed warning, in the order of the mapping; the object has the
  same attributes after the call as before, and every attribute not named in the mapping
  keeps its value.
\<close>

theorem settings_update_frame:
  assumes "distinct (map fst updates)"
    and "\<forall>k \<in> fst ` set updates. k \<notin> set special_attributes"
  shows "snd (settings_update s updates) = None \<and>
         (\<forall>(k, v) \<in> set updates. hasattr s k \<longrightarrow>
              attrs (fst (settings_update s updates)) k = Some v) \<and>
         (\<forall>k. hasattr (fst (settings_update s updates)) k = hasattr s k) \<and>
         printed (fst (settings_update s updates)) =
           printed s @ map setting_not_found (filter (\<lambda>k. \<not> hasattr s k) (map fst updates)) \<and>
         (\<forall>k. k \<notin> fst ` set updates \<longrightarrow> attrs (fst (settings_update s updates)) k = attrs s k) \<and>
         inherited (fst (settings_update s updates)) = inherited s"
proof (intro conjI)
  note o = settings_update_ordinary [OF assms(2), of s]
  show "snd (settings_update s updates) = None" using o by blast
  show "\<forall>(k, v) \<in> set updates. hasattr s k \<longrightarrow>
              attrs (fst (settings_update s updates)) k = Some v"
    using settings_update_set [OF assms(2) assms(1)] by blast
  show "\<forall>k. hasattr (fst (settings_update s updates)) k = hasattr s k" using o by blast
  show "printed (fst (settings_update s updates)) =
           printed s @ map setting_not_found (filter (\<lambda>k. \<not> hasattr s k) (map fst updates))"
    using o by blast
  show "\<forall>k. k \<notin> fst ` set updates \<longrightarrow> attrs (fst (settings_update s updates)) k = attrs s k"
    using o by blast
  show "inherited (fst (settings_update s updates)) = inherited s" using o by blast
qed

theorem settings_update_frame_witness:
  "distinct (map fst [(''local_json_schema'', PyStr ''/schemas''), (''colour'', PyInt 3),
                      (''update'', PyNone)]) \<and>
   snd (settings_update Settings_init
          [(''local_json_schema'', PyStr ''/schemas''), (''colour'', PyInt 3), (''update'', PyNone)])
     = None \<and>
   attrs (fst (settings_update Settings_init
          [(''local_json_schema'', PyStr ''/schemas''), (''colour'', PyInt 3), (''update'', PyNone)]))
      ''local_json_schema'' = Some (PyStr ''/schemas'') \<and>
   attrs (fst (settings_update Settings_init
          [(''local_json_schema'', PyStr ''/schemas''), (''colour'', PyInt 3), (''update'', PyNone)]))
      ''update'' = Some PyNone \<and>
   \<not> hasattr (fst (settings_update Settings_init
          [(''local_json_schema'', PyStr ''/schemas''), (''colour'', PyInt 3), (''update'', PyNone)]))
      ''colour'' \<and>
   printed (fst (settings_update Settings_init
          [(''local_json_schema'', PyStr ''/schemas''), (''colour'', PyInt 3), (''update'', PyNone)])) =
     [setting_not_found ''colour'']"
proof -
  let ?u = "[(''local_json_schema'', PyStr ''/schemas''), (''colour'', PyInt 3), (''update'', PyNone)]"
  have d: "distinct (map fst ?u)" by simp
  have sp: "\<forall>k \<in> fst ` set ?u. k \<notin> set special_attributes"
    by (simp add: special_attributes_def)
  have h1: "hasattr Settings_init ''local_json_schema''"
    by (simp add: hasattr_def Settings_init_def)
  have h2: "hasattr Settings_init ''update''"
    by (simp add: hasattr_def Settings_init_def)
  have h3: "\<not> hasattr Settings_init ''colour''"
    by (simp add: hasattr_def Settings_init_def)
  have p: "printed Settings_init = []" by (simp add: Settings_init_def)
  note f = settings_update_frame [OF d sp, of Settings_init]
  from f have r0: "snd (settings_update Settings_init ?u) = None" by blast
  from f h1 have r1: "attrs (fst (settings_update Settings_init ?u)) ''local_json_schema'' =
                        Some (PyStr ''/schemas'')" by auto
  from f h2 have r2: "attrs (fst (settings_update Settings_init ?u)) ''update'' = Some PyNone"
    by auto
  from f h3 have r3: "\<not> hasattr (fst (settings_update Settings_init ?u)) ''colour''" by blast
  from f have "printed (fst (settings_update Settings_init ?u)) =
                 printed Settings_init @
                 map setting_not_found (filter (\<lambda>k. \<not> hasattr Settings_init k) (map fst ?u))"
    by blast
  then have r4: "printed (fst (settings_update Settings_init ?u)) = [setting_not_found ''colour'']"
    using h1 h2 h3 p by simp
  from d r0 r1 r2 r3 r4 show ?thesis by blast
qed

section \<open>Legacy ENA portal client: the field validator\<close>

lemma check_fields_loop_subset:
  "set xs \<subseteq> set flds \<Longrightarrow> check_fields_loop xs flds"
  by (induction xs) auto

lemma log_fields_column_ids:
  "log_fields fs = Inr u \<Longrightarrow> \<exists>cs. column_ids fs = Inr cs"
  by (induction fs) (auto split: sum.splits)

lemma log_fields_str: "log_fields (JStr k # rest) \<noteq> Inr u"
  by simp

lemma get_json_nonempty:
  "get_json net url = Inr (Some j) \<Longrightarrow> j = JList [] \<or> (\<exists>n. py_len j = Inr n \<and> 0 < n)"
  by (auto simp: get_json_def split: http_reply.splits if_splits option.splits sum.splits)

lemma list_fields_is_list:
  assumes "list_fields net result_type = Inr j"
  shows "\<exists>xs. j = JList xs"
proof -
  let ?url = "portal_base_url @ ''returnFields?dataPortal=ena&format=json&result='' @ result_type"
  from assms obtain fs where g: "get_json net ?url = Inr (Some j)"
    and it: "py_iter j = Inr fs" and lg: "log_fields fs = Inr ()"
    by (auto simp: list_fields_def split: sum.splits option.splits)
  from get_json_nonempty [OF g] show ?thesis
  proof
    assume "j = JList []" then show ?thesis by simp
  next
    assume "\<exists>n. py_len j = Inr n \<and> 0 < n"
    then obtain n where n: "py_len j = Inr n" "0 < n" by blast
    show ?thesis
    proof (cases j)
      case (JObj kvs)
      with n obtain kv rest where "kvs = kv # rest" by (cases kvs) auto
      with JObj it lg show ?thesis by auto
    next
      case (JStr str)
      with n obtain c rest where "str = c # rest" by (cases str) auto
      with JStr it lg show ?thesis by auto
    qed (use it in auto)
  qed
qed

text \<open>
  Claim C9. Whenever the field discovery \<open>list_fields\<close> returns (and what it returns is
  then a list), \<open>_check_fields\<close> returns \<open>True\<close>, for every result type and every list of
  requested fields: the requested fields are never read.
\<close>

theorem check_fields_always_true:
  assumes "list_fields net result_type = Inr j"
  shows "(\<exists>xs. j = JList xs) \<and> check_fields net result_type flds = Inr True"
proof -
  let ?url = "portal_base_url @ ''returnFields?dataPortal=ena&format=json&result='' @ result_type"
  from assms obtain fs where it: "py_iter j = Inr fs" and lg: "log_fields fs = Inr ()"
    by (auto simp: list_fields_def split: sum.splits option.splits)
  from log_fields_column_ids [OF lg] obtain cs where cs: "column_ids fs = Inr cs" by blast
  have "check_fields_loop cs cs" by (rule check_fields_loop_subset) simp
  with assms it cs have "check_fields net result_type flds = Inr True"
    by (simp add: check_fields_def)
  with list_fields_is_list [OF assms] show ?thesis by blast
qed

theorem check_fields_always_true_witness:
  "list_fields example_fields_net ''read_run'' = Inr (JList
        [JObj [(''columnId'', JStr ''run_accession''), (''description'', JStr ''accession number'')],
         JObj [(''columnId'', JStr ''fastq_ftp''), (''description'', JStr ''FTP links'')]]) \<and>
   check_fields example_fields_net ''read_run'' [''no_such_field''] = Inr True"
proof -
  have h: "list_fields example_fields_net ''read_run'' = Inr (JList
        [JObj [(''columnId'', JStr ''run_accession''), (''description'', JStr ''accession number'')],
         JObj [(''columnId'', JStr ''fastq_ftp''), (''description'', JStr ''FTP links'')]])"
    by (simp add: list_fields_def get_json_def example_fields_net_def portal_base_url_def)
  from check_fields_always_true [OF h, of "[''no_such_field'']"] h show ?thesis by simp
qed

section \<open>Validation orchestrator\<close>

lemma configure_returns:
  "snd (settings_update settings0 [(''local_json_schema'', PyStr p)]) = None"
  by (simp add: setattr_def)

lemma calls_invoke: "calls (invoke eng c r) = calls r @ [c]"
  by (simp add: invoke_def)

lemma check_if_not_ok:
  "\<not> parsing_ok eng (validator r) \<Longrightarrow> check_if eng flag c r = r"
  by (simp add: check_if_def)

lemma check_if_renders:
  "is_check c \<Longrightarrow>
     filter (\<lambda>x. \<not> is_check x) (calls (check_if eng flag c r)) = filter (\<lambda>x. \<not> is_check x) (calls r)"
  by (simp add: check_if_def calls_invoke)

text \<open>
  Claim C2. For every combination of arguments of the current \<open>run_validation\<close>: when
  the validator built from the schema and the dataset has \<open>parsing_ok\<close> false, the only
  call made on it is one rendering call, so that none of the six checks is invoked; and in
  every invocation exactly one rendering call is made, the last call, \<open>to_markdown\<close> when
  the markdown flag is set and \<open>to_rich\<close> otherwise.
\<close>

theorem run_validation_rendering:
  "(\<not> parsing_ok eng
        (construct eng
           (configure settings0 (local_json_schema a))
           (schema a) (dataset a)) \<longrightarrow>
      calls (run_validation eng settings0 a) = [if markdown a then ToMarkdown else ToRich]) \<and>
   filter (\<lambda>c. \<not> is_check c) (calls (run_validation eng settings0 a)) =
     [if markdown a then ToMarkdown else ToRich] \<and>
   last (calls (run_validation eng settings0 a)) = (if markdown a then ToMarkdown else ToRich)"
proof (intro conjI impI)
  assume "\<not> parsing_ok eng
        (construct eng
           (configure settings0 (local_json_schema a))
           (schema a) (dataset a))"
  then show "calls (run_validation eng settings0 a) = [if markdown a then ToMarkdown else ToRich]"
    by (simp add: run_validation_def Let_def check_if_not_ok calls_invoke)
next
  show "filter (\<lambda>c. \<not> is_check c) (calls (run_validation eng settings0 a)) =
     [if markdown a then ToMarkdown else ToRich]"
    by (simp add: run_validation_def Let_def check_if_renders calls_invoke)
next
  show "last (calls (run_validation eng settings0 a)) = (if markdown a then ToMarkdown else ToRich)"
    by (simp add: run_validation_def Let_def calls_invoke)
qed

theorem run_validation_rendering_witness:
  "\<not> parsing_ok unparsed_engine
       (construct unparsed_engine
          (configure Settings_init (local_json_schema every_check_args))
          (schema every_check_args) (dataset every_check_args)) \<and>
   calls (run_validation unparsed_engine Settings_init every_check_args) = [ToRich]"
  using run_validation_rendering [of unparsed_engine Settings_init every_check_args]
  by (simp add: unparsed_engine_def every_check_args_def)

section \<open>Mutually exclusive options\<close>

lemma handle_plain:
  "\<not> ((\<exists>m \<in> set ex. map_of opts m \<noteq> None) \<and> map_of opts n \<noteq> None) \<Longrightarrow>
     handle_parse_result base (MutuallyExclusiveOption n ex) opts args =
       base (MutuallyExclusiveOption n ex) opts args"
  by auto

lemma process_params_error:
  "p \<in> set ps \<Longrightarrow> (\<forall>a. \<exists>e. handle_parse_result base p opts a = Inl e) \<Longrightarrow>
     \<exists>e. process_params base ps opts args = Inl e"
proof (induction ps arbitrary: args)
  case Nil
  then show ?case by simp
next
  case (Cons q ps)
  show ?case
  proof (cases "handle_parse_result base q opts args")
    case (Inl e)
    then show ?thesis by simp
  next
    case (Inr r)
    then have "q \<noteq> p" using Cons.prems(2) by (metis sum.distinct(1))
    then have "p \<in> set ps" using Cons.prems(1) by simp
    from Cons.IH [OF this Cons.prems(2)] obtain e where
      "process_params base ps opts (snd r) = Inl e" by blast
    then show ?thesis using Inr by (cases r) simp
  qed
qed

lemma process_params_usage:
  "(\<forall>p \<in> set ps. \<forall>a e. handle_parse_result base p opts a = Inl e \<longrightarrow> is_usage_error e) \<Longrightarrow>
     process_params base ps opts args = Inl e \<Longrightarrow> is_usage_error e"
proof (induction ps arbitrary: args)
  case Nil
  then show ?case by simp
next
  case (Cons q ps)
  then show ?case
    by (auto split: sum.splits prod.splits)
qed

lemma handle_usage:
  "(\<forall>p a e. base p opts a = Inl e \<longrightarrow> is_usage_error e) \<Longrightarrow>
     handle_parse_result base p opts a = Inl e \<Longrightarrow> is_usage_error e"
  by (cases p) (auto split: if_splits)

lemma process_params_plain:
  "(\<forall>p \<in> set ps. \<forall>a. handle_parse_result base p opts a = base p opts a) \<Longrightarrow>
     process_params base ps opts args = click_params base ps opts args"
proof (induction ps arbitrary: args)
  case Nil
  show ?case by simp
next
  case (Cons p ps)
  have h: "handle_parse_result base p opts args = base p opts args" using Cons.prems by simp
  have r: "process_params base ps opts a = click_params base ps opts a" for a
    using Cons by simp
  show ?case by (simp add: h r split: sum.splits prod.splits)
qed

lemma click_params_accepts:
  "(\<forall>p a. \<exists>v a'. base p opts a = Inr (v, a')) \<Longrightarrow> \<exists>kw. click_params base ps opts args = Inr kw"
proof (induction ps arbitrary: args)
  case Nil
  show ?case by simp
next
  case (Cons p ps)
  from Cons.prems obtain v a' where b: "base p opts args = Inr (v, a')" by blast
  from Cons.IH [OF Cons.prems, of a'] obtain kw where "click_params base ps opts a' = Inr kw"
    by blast
  then show ?case using b by simp
qed

lemma convert_params_plain:
  assumes "\<not> (map_of opts ''libraries'' \<noteq> None \<and> map_of opts ''librarymetadata'' \<noteq> None)"
  shows "process_params base convert_params opts args = click_params base convert_params opts args"
proof (rule process_params_plain)
  show "\<forall>p \<in> set convert_params. \<forall>a. handle_parse_result base p opts a = base p opts a"
    using assms by (auto simp: convert_params_def)
qed

text \<open>
  Claim C8. A \<open>MutuallyExclusiveOption\<close> that is on the command line together with an
  option it excludes raises the usage error, and a command that has such an option among
  its parameters fails before its function is called. For \<open>convert\<close> with both
  \<open>--libraries\<close> and \<open>--librarymetadata\<close>, the command fails before \<open>run_convert\<close> is
  called, and with a usage error when the handlers of \<open>click\<close> fail with usage errors
  only. When the two are not both on the command line, the exclusion raises nothing:
  every parameter is handled exactly as by \<open>click\<close>, the command \<open>convert\<close> does what
  \<open>click\<close> alone does with its parameters, and it calls \<open>run_convert\<close> whenever
  \<open>click\<close> accepts them.
\<close>

theorem mutually_exclusive_usage_error:
  "(map_of opts n \<noteq> None \<and> m \<in> set ex \<and> map_of opts m \<noteq> None \<longrightarrow>
      handle_parse_result base (MutuallyExclusiveOption n ex) opts args =
        Inl (UsageError (illegal_usage n ex))) \<and>
   (map_of opts ''libraries'' \<noteq> None \<and> map_of opts ''librarymetadata'' \<noteq> None \<longrightarrow>
      (\<exists>e. convert base run_convert opts args = Inl e) \<and>
      ((\<forall>p a e. base p opts a = Inl e \<longrightarrow> is_usage_error e) \<longrightarrow>
         (\<exists>msg. convert base run_convert opts args = Inl (UsageError msg)))) \<and>
   (\<not> ((\<exists>m \<in> set ex. map_of opts m \<noteq> None) \<and> map_of opts n \<noteq> None) \<longrightarrow>
      handle_parse_result base (MutuallyExclusiveOption n ex) opts args =
        base (MutuallyExclusiveOption n ex) opts args) \<and>
   (\<not> (map_of opts ''libraries'' \<noteq> None \<and> map_of opts ''librarymetadata'' \<noteq> None) \<longrightarrow>
      (\<forall>p \<in> set convert_params. handle_parse_result base p opts args = base p opts args)) \<and>
   (MutuallyExclusiveOption n ex \<in> set ps \<and>
    map_of opts n \<noteq> None \<and> m \<in> set ex \<and> map_of opts m \<noteq> None \<longrightarrow>
      (\<exists>e. process_params base ps opts args = Inl e)) \<and>
   (\<not> (map_of opts ''libraries'' \<noteq> None \<and> map_of opts ''librarymetadata'' \<noteq> None) \<longrightarrow>
      convert base run_convert opts args =
        (case click_params base convert_params opts args of
           Inl e \<Rightarrow> Inl e
         | Inr kwargs \<Rightarrow> Inr (run_convert kwargs))) \<and>
   (\<not> (map_of opts ''libraries'' \<noteq> None \<and> map_of opts ''librarymetadata'' \<noteq> None) \<and>
    (\<forall>p a. \<exists>v a'. base p opts a = Inr (v, a')) \<longrightarrow>
      (\<exists>kwargs. convert base run_convert opts args = Inr (run_convert kwargs)))"
proof (intro conjI impI)
  assume "map_of opts n \<noteq> None \<and> m \<in> set ex \<and> map_of opts m \<noteq> None"
  then show "handle_parse_result base (MutuallyExclusiveOption n ex) opts args =
        Inl (UsageError (illegal_usage n ex))"
    by auto
next
  assume both: "map_of opts ''libraries'' \<noteq> None \<and> map_of opts ''librarymetadata'' \<noteq> None"
  have mem: "MutuallyExclusiveOption ''libraries'' [''librarymetadata''] \<in> set convert_params"
    by (simp add: convert_params_def)
  have "\<forall>a. \<exists>e. handle_parse_result base
           (MutuallyExclusiveOption ''libraries'' [''librarymetadata'']) opts a = Inl e"
    using both by simp
  from process_params_error [OF mem this]
  obtain e where e: "process_params base convert_params opts args = Inl e" by blast
  then show ex: "\<exists>e. convert base run_convert opts args = Inl e"
    by (simp add: convert_def)
  assume us: "\<forall>p a e. base p opts a = Inl e \<longrightarrow> is_usage_error e"
  have "is_usage_error e"
    by (rule process_params_usage [OF _ e]) (use us handle_usage in blast)
  then obtain msg where "e = UsageError msg" by (cases e) auto
  with e show "\<exists>msg. convert base run_convert opts args = Inl (UsageError msg)"
    by (simp add: convert_def)
next
  assume "\<not> ((\<exists>m \<in> set ex. map_of opts m \<noteq> None) \<and> map_of opts n \<noteq> None)"
  then show "handle_parse_result base (MutuallyExclusiveOption n ex) opts args =
        base (MutuallyExclusiveOption n ex) opts args"
    by (rule handle_plain)
next
  assume "\<not> (map_of opts ''libraries'' \<noteq> None \<and> map_of opts ''librarymetadata'' \<noteq> None)"
  then show "\<forall>p \<in> set convert_params. handle_parse_result base p opts args = base p opts args"
    by (auto simp: convert_params_def)
next
  assume h: "MutuallyExclusiveOption n ex \<in> set ps \<and>
    map_of opts n \<noteq> None \<and> m \<in> set ex \<and> map_of opts m \<noteq> None"
  then have "\<forall>a. \<exists>e. handle_parse_result base (MutuallyExclusiveOption n ex) opts a = Inl e"
    by auto
  with h show "\<exists>e. process_params base ps opts args = Inl e"
    using process_params_error by blast
next
  assume h: "\<not> (map_of opts ''libraries'' \<noteq> None \<and> map_of opts ''librarymetadata'' \<noteq> None)"
  show "convert base run_convert opts args =
        (case click_params base convert_params opts args of
           Inl e \<Rightarrow> Inl e
         | Inr kwargs \<Rightarrow> Inr (run_convert kwargs))"
    unfolding convert_def convert_params_plain [OF h] ..
next
  assume h: "\<not> (map_of opts ''libraries'' \<noteq> None \<and> map_of opts ''librarymetadata'' \<noteq> None) \<and>
    (\<forall>p a. \<exists>v a'. base p opts a = Inr (v, a'))"
  then have nb: "\<not> (map_of opts ''libraries'' \<noteq> None \<and> map_of opts ''librarymetadata'' \<noteq> None)"
    and acc: "\<forall>p a. \<exists>v a'. base p opts a = Inr (v, a')" by blast+
  have p: "process_params base convert_params opts args =
           click_params base convert_params opts args"
    by (rule convert_params_plain [OF nb])
  from acc click_params_accepts
         [where base = base and opts = opts and ps = convert_params and args = args]
  obtain kw where "click_params base convert_params opts args = Inr kw" by blast
  with p have "convert base run_convert opts args = Inr (run_convert kw)"
    by (simp add: convert_def)
  then show "\<exists>kwargs. convert base run_convert opts args = Inr (run_convert kwargs)"
    by (rule exI)
qed

theorem mutually_exclusive_usage_error_witness:
  "map_of [(''libraries'', ''libs.tsv''), (''librarymetadata'', ''True'')] ''libraries'' \<noteq> None \<and>
   map_of [(''libraries'', ''libs.tsv''), (''librarymetadata'', ''True'')] ''librarymetadata'' \<noteq> None \<and>
   (\<exists>msg. convert accept_all id
             [(''libraries'', ''libs.tsv''), (''librarymetadata'', ''True'')] [] =
           Inl (UsageError msg)) \<and>
   map_of [(''libraries'', ''libs.tsv'')] ''librarymetadata'' = None \<and>
   handle_parse_result accept_all (MutuallyExclusiveOption ''libraries'' [''librarymetadata''])
       [(''libraries'', ''libs.tsv'')] [] =
     Inr (Some ''libs.tsv'', []) \<and>
   (\<exists>kwargs. convert accept_all id [(''libraries'', ''libs.tsv'')] [] = Inr kwargs)"
proof -
  let ?both = "[(''libraries'', ''libs.tsv''), (''librarymetadata'', ''True'')]"
  let ?one = "[(''libraries'', ''libs.tsv'')]"
  have a: "map_of ?both ''libraries'' \<noteq> None \<and> map_of ?both ''librarymetadata'' \<noteq> None"
    by simp
  have b: "\<forall>p a e. accept_all p ?both a = Inl e \<longrightarrow> is_usage_error e"
    by (simp add: accept_all_def)
  have c: "\<not> (map_of ?one ''libraries'' \<noteq> None \<and> map_of ?one ''librarymetadata'' \<noteq> None)"
    by simp
  have d: "MutuallyExclusiveOption ''libraries'' [''librarymetadata''] \<in> set convert_params"
    by (simp add: convert_params_def)
  have acc: "\<forall>p a. \<exists>v a'. accept_all p ?one a = Inr (v, a')"
    by (simp add: accept_all_def)
  note both = mutually_exclusive_usage_error
         [where opts = ?both and n = "''libraries''" and m = "''librarymetadata''"
            and ex = "[''librarymetadata'']" and base = accept_all and args = "[]"
            and run_convert = id and ps = convert_params]
  note one = mutually_exclusive_usage_error
         [where opts = ?one and n = "''libraries''" and m = "''librarymetadata''"
            and ex = "[''librarymetadata'']" and base = accept_all and args = "[]"
            and run_convert = id and ps = convert_params]
  from both a b
  have e: "\<exists>msg. convert accept_all id ?both [] = Inl (UsageError msg)"
    by blast
  from one c d
  have "handle_parse_result accept_all
          (MutuallyExclusiveOption ''libraries'' [''librarymetadata'']) ?one [] =
        accept_all (MutuallyExclusiveOption ''libraries'' [''librarymetadata'']) ?one []"
    by blast
  then have f: "handle_parse_result accept_all
          (MutuallyExclusiveOption ''libraries'' [''librarymetadata'']) ?one [] =
        Inr (Some ''libs.tsv'', [])"
    by (simp add: accept_all_def)
  have g: "map_of ?one ''librarymetadata'' = None" by simp
  from one c acc
  have "\<exists>kwargs. convert accept_all id ?one [] = Inr (id kwargs)"
    by blast
  then have k: "\<exists>kwargs. convert accept_all id ?one [] = Inr kwargs" by simp
  from a e f g k show ?thesis by blast
qed

section \<open>Latest-tag selection\<close>

lemma Version_error: "Version s = Inl e \<Longrightarrow> e = InvalidVersion (invalid_version s)"
  by (auto simp: Version_def split: option.splits)

lemma tag_key_None: "tag_key t = None \<longleftrightarrow> Version t = Inl (InvalidVersion (invalid_version t))"
  by (auto simp: tag_key_def split: sum.splits dest: Version_error)

lemma tag_key_Some: "tag_key t = Some k \<longleftrightarrow> (\<exists>v. Version t = Inr v \<and> k = cmpkey v)"
  by (auto simp: tag_key_def split: sum.splits)

lemma version_keys_ok:
  "\<forall>t \<in> set tags. tag_key t \<noteq> None \<Longrightarrow>
     version_keys tags = Inr (map (\<lambda>t. (the (tag_key t), t)) tags)"
  by (induction tags) (auto simp: tag_key_def split: sum.splits)

lemma version_keys_fail:
  "\<exists>t \<in> set tags. tag_key t = None \<Longrightarrow> \<exists>msg. version_keys tags = Inl (InvalidVersion msg)"
proof (induction tags)
  case Nil
  then show ?case by simp
next
  case (Cons x xs)
  show ?case
  proof (cases "Version x")
    case (Inl e)
    then show ?thesis using Version_error [OF Inl] by simp
  next
    case (Inr v)
    then have "tag_key x \<noteq> None" by (simp add: tag_key_def)
    with Cons.prems have "\<exists>t \<in> set xs. tag_key t = None" by auto
    from Cons.IH [OF this] show ?thesis using Inr by auto
  qed
qed

lemma sorted_last_max:
  "sorted (map f xs) \<Longrightarrow> x \<in> set xs \<Longrightarrow> f x \<le> f (last xs)"
proof (induction xs)
  case Nil
  then show ?case by simp
next
  case (Cons y ys)
  then show ?case by (cases ys) auto
qed

lemma last_sort_key_max:
  assumes "xs \<noteq> []"
  shows "last (sort_key f xs) \<in> set xs \<and> (\<forall>x \<in> set xs. f x \<le> f (last (sort_key f xs)))"
proof -
  have ne: "sort_key f xs \<noteq> []" using assms by (metis length_sort length_0_conv)
  then have "last (sort_key f xs) \<in> set (sort_key f xs)" by (rule last_in_set)
  then have a: "last (sort_key f xs) \<in> set xs" by (simp only: set_sort)
  have "sorted (map f (sort_key f xs))" by (rule sorted_sort_key)
  then have "\<forall>x \<in> set (sort_key f xs). f x \<le> f (last (sort_key f xs))"
    by (auto intro: sorted_last_max)
  with a show ?thesis by simp
qed



lemma get_latest_tag_sorted:
  "version_keys tags = Inr ks \<Longrightarrow> get_latest_tag tags = py_last (map snd (sort_key fst ks))"
  by (simp add: get_latest_tag_def)

lemma get_latest_tag_invalid:
  "version_keys tags = Inl (InvalidVersion msg) \<Longrightarrow>
     get_latest_tag tags =
       (if ''master'' \<in> set tags then Inr ''master''
        else Inl (InvalidVersion ''No valid tags found''))"
  by (simp add: get_latest_tag_def)

text \<open>
  Claim C5, as the code has it. On the empty list of candidates the function does not
  return and does not signal an invalid version: reading the last element of the sorted
  list raises \<open>IndexError\<close>, which the handler for \<open>InvalidVersion\<close> lets pass.
\<close>

theorem get_latest_tag_empty: "get_latest_tag [] = Inl IndexError"
  by (simp add: get_latest_tag_def py_last_def)

text \<open>
  Claim C5, amended. For every non-empty list of candidate tags: if all of them parse as
  versions, \<open>get_latest_tag\<close> returns a candidate whose version is maximal among the
  candidates; if some candidate does not parse, it returns \<open>master\<close> when \<open>master\<close> is
  among the candidates and raises \<open>InvalidVersion\<close> otherwise.
\<close>

theorem get_latest_tag_nonempty:
  assumes "tags \<noteq> []"
  shows "((\<forall>t \<in> set tags. tag_key t \<noteq> None) \<longrightarrow>
            (\<exists>t \<in> set tags. get_latest_tag tags = Inr t \<and>
               (\<forall>u \<in> set tags. the (tag_key u) \<le> the (tag_key t)))) \<and>
         ((\<exists>t \<in> set tags. tag_key t = None) \<and> ''master'' \<in> set tags \<longrightarrow>
            get_latest_tag tags = Inr ''master'') \<and>
         ((\<exists>t \<in> set tags. tag_key t = None) \<and> ''master'' \<notin> set tags \<longrightarrow>
            get_latest_tag tags = Inl (InvalidVersion ''No valid tags found''))"
proof (intro conjI impI)
  assume ok: "\<forall>t \<in> set tags. tag_key t \<noteq> None"
  define ks where "ks = map (\<lambda>t. (the (tag_key t), t)) tags"
  have ne: "ks \<noteq> []" using assms by (simp add: ks_def)
  have vk: "version_keys tags = Inr ks"
    unfolding ks_def by (rule version_keys_ok [OF ok])
  from last_sort_key_max [OF ne, of fst]
  have mem: "last (sort_key fst ks) \<in> set ks"
    and mx: "\<forall>x \<in> set ks. fst x \<le> fst (last (sort_key fst ks))" by blast+
  from mem obtain t where t: "t \<in> set tags" "last (sort_key fst ks) = (the (tag_key t), t)"
    unfolding ks_def by auto
  have sne: "sort_key fst ks \<noteq> []" using ne by (metis length_sort length_0_conv)
  have "get_latest_tag tags = py_last (map snd (sort_key fst ks))"
    by (rule get_latest_tag_sorted [OF vk])
  also have "\<dots> = Inr (snd (last (sort_key fst ks)))"
    using sne by (simp add: py_last_def last_map)
  also have "\<dots> = Inr t" by (simp only: t(2) snd_conv)
  finally have r: "get_latest_tag tags = Inr t" .
  have "\<forall>u \<in> set tags. the (tag_key u) \<le> the (tag_key t)"
  proof
    fix u assume "u \<in> set tags"
    then have "(the (tag_key u), u) \<in> set ks" unfolding ks_def by simp
    with mx have "fst (the (tag_key u), u) \<le> fst (last (sort_key fst ks))" by blast
    then show "the (tag_key u) \<le> the (tag_key t)" by (simp only: t(2) fst_conv)
  qed
  with r t(1) show "\<exists>t \<in> set tags. get_latest_tag tags = Inr t \<and>
               (\<forall>u \<in> set tags. the (tag_key u) \<le> the (tag_key t))"
    by blast
next
  assume h: "(\<exists>t \<in> set tags. tag_key t = None) \<and> ''master'' \<in> set tags"
  then obtain msg where "version_keys tags = Inl (InvalidVersion msg)"
    using version_keys_fail [of tags] by blast
  from get_latest_tag_invalid [OF this] h
  show "get_latest_tag tags = Inr ''master''" by simp
next
  assume h: "(\<exists>t \<in> set tags. tag_key t = None) \<and> ''master'' \<notin> set tags"
  then obtain msg where "version_keys tags = Inl (InvalidVersion msg)"
    using version_keys_fail [of tags] by blast
  from get_latest_tag_invalid [OF this] h
  show "get_latest_tag tags = Inl (InvalidVersion ''No valid tags found'')" by simp
qed

theorem get_latest_tag_nonempty_witness:
  "[''v22.09'', ''v23.01''] \<noteq> [] \<and>
   tag_key ''v22.09'' \<noteq> None \<and> tag_key ''v23.01'' \<noteq> None \<and>
   get_latest_tag [''v22.09'', ''v23.01''] = Inr ''v23.01'' \<and>
   tag_key ''master'' = None \<and>
   get_latest_tag [''master''] = Inr ''master'' \<and>
   tag_key ''bogus'' = None \<and>
   get_latest_tag [''bogus''] = Inl (InvalidVersion ''No valid tags found'')"
proof -
  have k1: "tag_key ''v22.09'' \<noteq> None" by code_simp
  have k2: "tag_key ''v23.01'' \<noteq> None" by code_simp
  have k3: "tag_key ''master'' = None" by code_simp
  have k4: "tag_key ''bogus'' = None" by code_simp
  have ex: "\<exists>t \<in> set [''v22.09'', ''v23.01'']. get_latest_tag [''v22.09'', ''v23.01''] = Inr t"
    using get_latest_tag_nonempty [of "[''v22.09'', ''v23.01'']"] k1 k2 by auto
  have r1: "get_latest_tag [''v22.09'', ''v23.01''] = Inr ''v23.01''" by code_simp
  have r2: "get_latest_tag [''master''] = Inr ''master''"
    using get_latest_tag_nonempty [of "[''master'']"] k3 by simp
  have r3: "get_latest_tag [''bogus''] = Inl (InvalidVersion ''No valid tags found'')"
    using get_latest_tag_nonempty [of "[''bogus'']"] k4 by simp
  from k1 k2 k3 k4 ex r1 r2 r3 show ?thesis by simp
qed

section \<open>Release-tag discovery\<close>

lemma tag_names_names:
  "map (\<lambda>ob. py_getitem ob ''name'') objs = map (\<lambda>n. Inr (JStr n)) names \<Longrightarrow>
     tag_names objs = Inr (map JStr (filter (\<lambda>n. n \<noteq> ''latest'') names))"
proof (induction objs arbitrary: names)
  case Nil
  then show ?case by simp
next
  case (Cons ob objs)
  then obtain n ns where ns: "names = n # ns" by (cases names) auto
  with Cons.prems have a: "py_getitem ob ''name'' = Inr (JStr n)"
    and b: "map (\<lambda>ob. py_getitem ob ''name'') objs = map (\<lambda>n. Inr (JStr n)) ns" by auto
  from Cons.IH [OF b] a ns show ?case by simp
qed

lemma v22_09_parses: "\<exists>v. Version ''v22.09'' = Inr v"
proof -
  have "tag_key ''v22.09'' \<noteq> None" by code_simp
  then show ?thesis by (simp add: tag_key_def split: sum.splits)
qed

lemma released_tags_step:
  assumes "Version n = Inr v" and "released_tags (map JStr ns) = Inr ts"
  shows "released_tags (JStr n # map JStr ns) = Inr (if at_least_v22_09 n then JStr n # ts else ts)"
proof -
  from v22_09_parses obtain v0 where v0: "Version ''v22.09'' = Inr v0" by blast
  have "at_least_v22_09 n \<longleftrightarrow> cmpkey v0 \<le> cmpkey v"
    using assms(1) v0 by (simp add: at_least_v22_09_def tag_key_def)
  then show ?thesis using assms v0 by simp
qed

lemma released_tags_ok:
  "\<forall>n \<in> set ns. tag_key n \<noteq> None \<Longrightarrow>
     released_tags (map JStr ns) = Inr (map JStr (filter at_least_v22_09 ns))"
proof (induction ns)
  case Nil
  then show ?case by simp
next
  case (Cons n ns)
  then obtain v where v: "Version n = Inr v" by (auto simp: tag_key_def split: sum.splits)
  have ih: "released_tags (map JStr ns) = Inr (map JStr (filter at_least_v22_09 ns))"
    using Cons by simp
  from released_tags_step [OF v ih] show ?case by simp
qed

lemma released_tags_fail:
  "\<exists>n \<in> set ns. tag_key n = None \<Longrightarrow>
     \<exists>n \<in> set ns. tag_key n = None \<and>
        released_tags (map JStr ns) = Inl (InvalidVersion (invalid_version n))"
proof (induction ns)
  case Nil
  then show ?case by simp
next
  case (Cons n ns)
  show ?case
  proof (cases "Version n")
    case (Inl e)
    then have "released_tags (map JStr (n # ns)) = Inl (InvalidVersion (invalid_version n))"
      using Version_error [OF Inl] by simp
    moreover have "tag_key n = None" using Inl by (simp add: tag_key_def)
    ultimately show ?thesis by auto
  next
    case (Inr v)
    then have "tag_key n \<noteq> None" by (simp add: tag_key_def)
    with Cons.prems have "\<exists>m \<in> set ns. tag_key m = None" by auto
    from Cons.IH [OF this] obtain m where m: "m \<in> set ns" "tag_key m = None"
      "released_tags (map JStr ns) = Inl (InvalidVersion (invalid_version m))" by blast
    from v22_09_parses obtain v0 where v0: "Version ''v22.09'' = Inr v0" by blast
    have "released_tags (map JStr (n # ns)) = Inl (InvalidVersion (invalid_version m))"
      using Inr v0 m(3) by simp
    with m show ?thesis by auto
  qed
qed

lemma get_amdir_tags_200:
  assumes "net tags_url = Reply 200 (Some (JList objs))"
    and "map (\<lambda>ob. py_getitem ob ''name'') objs = map (\<lambda>n. Inr (JStr n)) names"
  shows "get_amdir_tags net =
           (case released_tags (map JStr (filter (\<lambda>n. n \<noteq> ''latest'') names)) of
              Inl e \<Rightarrow> Inl e | Inr r \<Rightarrow> Inr (r, []))"
  using assms(1) tag_names_names [OF assms(2)] by (simp add: get_amdir_tags_def)

text \<open>
  Claim C1, as the code has it. On the tag list of the specification's example the call
  returns nothing: \<open>version.parse\<close> raises \<open>InvalidVersion\<close> on \<open>bogus\<close>, and the
  comprehension has no handler, only the guard that leaves \<open>latest\<close> out. When the
  service cannot be reached, the connection error of \<open>requests.get\<close> leaves the function:
  only a response with a status other than 200 gives \<open>master\<close>.
\<close>

theorem get_amdir_tags_spec_example:
  "get_amdir_tags (example_tags_net [''latest'', ''v22.09'', ''v22.06'', ''v23.01'', ''bogus'']) =
     Inl (InvalidVersion (invalid_version ''bogus'')) \<and>
   get_amdir_tags unreachable_net = Inl ConnectionError"
proof
  show "get_amdir_tags (example_tags_net [''latest'', ''v22.09'', ''v22.06'', ''v23.01'', ''bogus'']) =
     Inl (InvalidVersion (invalid_version ''bogus''))"
    by code_simp
  show "get_amdir_tags unreachable_net = Inl ConnectionError"
    by (simp add: get_amdir_tags_def unreachable_net_def)
qed

text \<open>
  Claim C1, amended. A response with a status other than 200 gives exactly \<open>master\<close> and
  one logged warning. A connection failure is raised to the caller. A response with status
  200 whose tags other than \<open>latest\<close> all parse as versions gives, in their order and
  with nothing logged, the tag names other than \<open>latest\<close> whose version is at least
  \<open>v22.09\<close>; when some tag other than \<open>latest\<close> does not parse, the call fails with
  \<open>InvalidVersion\<close> for such a tag.
\<close>

theorem get_amdir_tags_cases:
  "(net tags_url = Reply status body \<and> status \<noteq> 200 \<longrightarrow>
      get_amdir_tags net = Inr ([JStr ''master''], [tags_warning])) \<and>
   (net tags_url = Unreachable \<longrightarrow> get_amdir_tags net = Inl ConnectionError) \<and>
   (net tags_url = Reply 200 (Some (JList objs)) \<and>
    map (\<lambda>ob. py_getitem ob ''name'') objs = map (\<lambda>n. Inr (JStr n)) names \<longrightarrow>
      ((\<forall>n \<in> set names. n \<noteq> ''latest'' \<longrightarrow> tag_key n \<noteq> None) \<longrightarrow>
         get_amdir_tags net =
           Inr (map JStr (filter (\<lambda>n. n \<noteq> ''latest'' \<and> at_least_v22_09 n) names), [])) \<and>
      ((\<exists>n \<in> set names. n \<noteq> ''latest'' \<and> tag_key n = None) \<longrightarrow>
         (\<exists>n \<in> set names. n \<noteq> ''latest'' \<and> tag_key n = None \<and>
            get_amdir_tags net = Inl (InvalidVersion (invalid_version n)))))"
proof (intro conjI impI)
  assume "net tags_url = Reply status body \<and> status \<noteq> 200"
  then show "get_amdir_tags net = Inr ([JStr ''master''], [tags_warning])"
    by (simp add: get_amdir_tags_def)
next
  assume "net tags_url = Unreachable"
  then show "get_amdir_tags net = Inl ConnectionError"
    by (simp add: get_amdir_tags_def)
next
  assume h: "net tags_url = Reply 200 (Some (JList objs)) \<and>
    map (\<lambda>ob. py_getitem ob ''name'') objs = map (\<lambda>n. Inr (JStr n)) names"
  assume ok: "\<forall>n \<in> set names. n \<noteq> ''latest'' \<longrightarrow> tag_key n \<noteq> None"
  let ?ns = "filter (\<lambda>n. n \<noteq> ''latest'') names"
  have "\<forall>n \<in> set ?ns. tag_key n \<noteq> None" using ok by simp
  from released_tags_ok [OF this]
  have "released_tags (map JStr ?ns) = Inr (map JStr (filter at_least_v22_09 ?ns))" .
  moreover have "filter at_least_v22_09 ?ns =
                 filter (\<lambda>n. n \<noteq> ''latest'' \<and> at_least_v22_09 n) names"
    by (simp add: conj_commute)
  ultimately show "get_amdir_tags net =
           Inr (map JStr (filter (\<lambda>n. n \<noteq> ''latest'' \<and> at_least_v22_09 n) names), [])"
    using get_amdir_tags_200 [of net objs names] h by simp
next
  assume h: "net tags_url = Reply 200 (Some (JList objs)) \<and>
    map (\<lambda>ob. py_getitem ob ''name'') objs = map (\<lambda>n. Inr (JStr n)) names"
  assume bad: "\<exists>n \<in> set names. n \<noteq> ''latest'' \<and> tag_key n = None"
  let ?ns = "filter (\<lambda>n. n \<noteq> ''latest'') names"
  have "\<exists>n \<in> set ?ns. tag_key n = None" using bad by auto
  from released_tags_fail [OF this] obtain n where n: "n \<in> set ?ns" "tag_key n = None"
    "released_tags (map JStr ?ns) = Inl (InvalidVersion (invalid_version n))" by blast
  have "get_amdir_tags net = Inl (InvalidVersion (invalid_version n))"
    using get_amdir_tags_200 [of net objs names] h n(3) by simp
  with n(1,2) show "\<exists>n \<in> set names. n \<noteq> ''latest'' \<and> tag_key n = None \<and>
            get_amdir_tags net = Inl (InvalidVersion (invalid_version n))"
    by auto
qed

theorem get_amdir_tags_cases_witness:
  "get_amdir_tags unavailable_net = Inr ([JStr ''master''], [tags_warning]) \<and>
   get_amdir_tags unreachable_net = Inl ConnectionError \<and>
   get_amdir_tags (example_tags_net [''latest'', ''v22.09'', ''v22.06'', ''v23.01'']) =
     Inr ([JStr ''v22.09'', JStr ''v23.01''], []) \<and>
   tag_key ''bogus'' = None \<and>
   get_amdir_tags (example_tags_net [''v22.09'', ''bogus'']) =
     Inl (InvalidVersion (invalid_version ''bogus''))"
proof -
  let ?names = "[''latest'', ''v22.09'', ''v22.06'', ''v23.01'']"
  let ?net = "example_tags_net ?names"
  have k1: "tag_key ''v22.09'' \<noteq> None" by code_simp
  have k2: "tag_key ''v22.06'' \<noteq> None" by code_simp
  have k3: "tag_key ''v23.01'' \<noteq> None" by code_simp
  have k4: "tag_key ''bogus'' = None" by code_simp
  have a1: "at_least_v22_09 ''v22.09''" by code_simp
  have a2: "\<not> at_least_v22_09 ''v22.06''" by code_simp
  have a3: "at_least_v22_09 ''v23.01''" by code_simp
  have r1: "get_amdir_tags unavailable_net = Inr ([JStr ''master''], [tags_warning])"
    using get_amdir_tags_cases [where net = unavailable_net and status = 503 and body = None]
    by (simp add: unavailable_net_def)
  have r2: "get_amdir_tags unreachable_net = Inl ConnectionError"
    using get_amdir_tags_cases [where net = unreachable_net] by (simp add: unreachable_net_def)
  have n: "?net tags_url = Reply 200 (Some (JList (map tag_object ?names)))"
    by (simp add: example_tags_net_def)
  have g: "map (\<lambda>ob. py_getitem ob ''name'') (map tag_object ?names) =
           map (\<lambda>n. Inr (JStr n)) ?names"
    by (simp add: tag_object_def)
  have p: "\<forall>n \<in> set ?names. n \<noteq> ''latest'' \<longrightarrow> tag_key n \<noteq> None"
    using k1 k2 k3 by simp
  have f: "filter (\<lambda>n. n \<noteq> ''latest'' \<and> at_least_v22_09 n) ?names = [''v22.09'', ''v23.01'']"
    using a1 a2 a3 by simp
  have "get_amdir_tags ?net =
          Inr (map JStr (filter (\<lambda>n. n \<noteq> ''latest'' \<and> at_least_v22_09 n) ?names), [])"
    using get_amdir_tags_cases
            [where net = ?net and objs = "map tag_object ?names" and names = ?names] n g p
    by blast
  then have r3: "get_amdir_tags ?net = Inr ([JStr ''v22.09'', JStr ''v23.01''], [])"
    by (simp only: f list.map)
  let ?bad = "[''v22.09'', ''bogus'']"
  have nb: "example_tags_net ?bad tags_url = Reply 200 (Some (JList (map tag_object ?bad)))"
    by (simp add: example_tags_net_def)
  have gb: "map (\<lambda>ob. py_getitem ob ''name'') (map tag_object ?bad) =
            map (\<lambda>n. Inr (JStr n)) ?bad"
    by (simp add: tag_object_def)
  have eb: "\<exists>n \<in> set ?bad. n \<noteq> ''latest'' \<and> tag_key n = None"
    using k4 by simp
  have "\<exists>n \<in> set ?bad. n \<noteq> ''latest'' \<and> tag_key n = None \<and>
          get_amdir_tags (example_tags_net ?bad) = Inl (InvalidVersion (invalid_version n))"
    using get_amdir_tags_cases
            [where net = "example_tags_net ?bad" and objs = "map tag_object ?bad" and names = ?bad]
          nb gb eb
    by blast
  then have r4: "get_amdir_tags (example_tags_net ?bad) =
                   Inl (InvalidVersion (invalid_version ''bogus''))"
    using k1 by auto
  from r1 r2 r3 k4 r4 show ?thesis by blast
qed

section \<open>Merge-feasibility check\<close>

lemma merge_pairs_mem:
  "(i, j) \<in> set (merge_pairs ls rs) \<longleftrightarrow> i < length ls \<and> j < length rs \<and> ls ! i = rs ! j"
  unfolding merge_pairs_def by (simp add: image_iff)

lemma merge_pairs_empty:
  "merge_pairs ls rs = [] \<longleftrightarrow> set ls \<inter> set rs = {}"
proof
  assume e: "merge_pairs ls rs = []"
  show "set ls \<inter> set rs = {}"
  proof (rule ccontr)
    assume "set ls \<inter> set rs \<noteq> {}"
    then obtain x where "x \<in> set ls" "x \<in> set rs" by blast
    then obtain i j where "i < length ls" "ls ! i = x" "j < length rs" "rs ! j = x"
      by (metis in_set_conv_nth)
    then have "(i, j) \<in> set (merge_pairs ls rs)"
      by (simp add: merge_pairs_mem)
    with e show False by simp
  qed
next
  assume d: "set ls \<inter> set rs = {}"
  show "merge_pairs ls rs = []"
  proof (cases "merge_pairs ls rs")
    case Nil
    then show ?thesis .
  next
    case (Cons p ps)
    obtain i j where p: "p = (i, j)" by (cases p)
    have "(i, j) \<in> set (merge_pairs ls rs)" using Cons p by simp
    then have "i < length ls" "j < length rs" "ls ! i = rs ! j"
      by (simp_all add: merge_pairs_mem)
    then have "ls ! i \<in> set ls \<inter> set rs" by (metis IntI nth_mem)
    with d show ?thesis by blast
  qed
qed

lemma split_stack_pieces:
  "length labels = length accs \<Longrightarrow>
     snd ` set (split_stack labels (map Str accs)) = (\<Union>a \<in> set accs. set (split_on CHR '','' a))"
proof (induction labels accs rule: list_induct2)
  case Nil
  show ?case by (simp add: split_stack_def)
next
  case (Cons l ls a as)
  have "split_stack (l # ls) (map Str (a # as)) =
          map (\<lambda>p. (l, p)) (split_on CHR '','' a) @ split_stack ls (map Str as)"
    by (simp add: split_stack_def)
  then show ?case using Cons.IH by (simp add: image_Un image_image)
qed

lemma join_index_pieces:
  "(\<lambda>e. fst (snd e)) ` set (join_index left labels) = snd ` set left"
proof (induction left)
  case Nil
  show ?case by (simp add: join_index_def)
next
  case (Cons lp left)
  have step: "join_index (lp # left) labels =
          (case positions_of (fst lp) labels of
             [] \<Rightarrow> [(fst lp, snd lp, None)]
           | i # is \<Rightarrow> map (\<lambda>j. (fst lp, snd lp, Some j)) (i # is)) @ join_index left labels"
    by (simp add: join_index_def)
  have "(\<lambda>e. fst (snd e)) ` set (case positions_of (fst lp) labels of
             [] \<Rightarrow> [(fst lp, snd lp, None)]
           | i # is \<Rightarrow> map (\<lambda>j. (fst lp, snd lp, Some j)) (i # is)) = {snd lp}"
    by (cases "positions_of (fst lp) labels") (auto simp: image_image)
  then show ?case using Cons.IH by (simp add: step image_Un)
qed

lemma map_of_mapped_column:
  "map_of cs c = Some vs \<Longrightarrow> map_of (map (\<lambda>cv. (fst cv, f cv)) cs) c \<noteq> None"
  by (induction cs) (auto split: if_splits)

lemma map_of_filter_other:
  "c \<noteq> d \<Longrightarrow> map_of (filter (\<lambda>cv. fst cv \<noteq> d) cs) c = map_of cs c"
  by (induction cs) auto


lemma list_ex_Str_map: "list_ex is_Str (map Str xs) \<longleftrightarrow> xs \<noteq> []"
  by (cases xs) simp_all

lemma stacked_samples_ok:
  assumes col: "getitem samples ''archive_accession'' = Inr (map Str accs)"
    and ne: "accs \<noteq> []"
  shows "stacked_samples samples =
           Inr (joined_frame
                  (join_index (split_stack (frame_index samples) (map Str accs)) (frame_index samples))
                  (samples\<lparr>frame_columns :=
                     filter (\<lambda>cv. fst cv \<noteq> ''archive_accession'') (frame_columns samples)\<rparr>))"
proof -
  have m: "map_of (frame_columns samples) ''archive_accession'' \<noteq> None"
    using col by (auto simp: getitem_def split: option.splits)
  have s: "str_accessor (map Str accs) = Inr (map Str accs)"
    using ne by (simp add: str_accessor_def list_ex_Str_map)
  show ?thesis using col m s by (simp add: stacked_samples_def drop_column_def)
qed

lemma getitem_joined_accession:
  "getitem (joined_frame entries right) ''archive_accession'' =
     Inr (map (\<lambda>e. Str (fst (snd e))) entries)"
  by (simp add: getitem_def joined_frame_def)

lemma getitem_joined_other:
  assumes "map_of (frame_columns right) c \<noteq> None" and "c \<noteq> ''archive_accession''"
  shows "\<exists>vs. getitem (joined_frame entries right) c = Inr vs"
proof -
  from assms(1) obtain ws where "map_of (frame_columns right) c = Some ws" by auto
  from map_of_mapped_column [OF this]
  have "map_of (map (\<lambda>cv. (fst cv, map (\<lambda>e. case snd (snd e) of None \<Rightarrow> NaN | Some j \<Rightarrow> snd cv ! j) entries))
                 (frame_columns right)) c \<noteq> None" .
  then show ?thesis using assms(2)
    by (auto simp: getitem_def joined_frame_def split: option.splits)
qed

lemma getitems_right_key:
  assumes "getitem st ''archive_accession'' = Inr rkey"
    and "table_name \<notin> set [''ancientmetagenome-environmental''] \<longrightarrow>
           (\<exists>vs. getitem st ''sample_host'' = Inr vs)"
  shows "\<exists>right. getitems st
           (if table_name \<in> set [''ancientmetagenome-environmental'']
            then [''archive_accession'']
            else [''archive_accession'', ''sample_host'']) = Inr right \<and>
         getitem right ''archive_accession'' = Inr rkey"
proof (cases "table_name \<in> set [''ancientmetagenome-environmental'']")
  case True
  then show ?thesis using assms(1) by (simp add: getitems_def getitem_def)
next
  case False
  with assms(2) obtain vs where "getitem st ''sample_host'' = Inr vs" by blast
  then show ?thesis using False assms(1) by (simp add: getitems_def getitem_def)
qed


lemma merge_on_strings:
  assumes "rs \<noteq> []"
  shows "merge_on (map Str keys) (map Str rs) = Inr (merge_pairs (map Str keys) (map Str rs))"
  using assms by (cases keys) (simp_all add: merge_on_def list_ex_Str_map)

lemma Str_image_disjoint: "Str ` A \<inter> Str ` B = {} \<longleftrightarrow> A \<inter> B = {}"
  by auto

lemma is_merge_size_zero_eval:
  assumes "shape0 samples \<noteq> 0" and "shape0 library \<noteq> 0"
    and "stacked_samples samples = Inr st"
    and "getitems st
           (if table_name \<in> set [''ancientmetagenome-environmental'']
            then [''archive_accession'']
            else [''archive_accession'', ''sample_host'']) = Inr right"
    and "getitem library ''archive_sample_accession'' = Inr lkey"
    and "getitem right ''archive_accession'' = Inr rkey"
    and "merge_on lkey rkey = Inr sel"
  shows "is_merge_size_zero samples library table_name = Inr (sel = [])"
  using assms unfolding is_merge_size_zero_def by (simp split: if_splits)

lemma is_merge_size_zero_nonempty:
  assumes s0: "shape0 samples \<noteq> 0" and l0: "shape0 library \<noteq> 0"
    and wf: "well_formed samples"
    and col: "getitem samples ''archive_accession'' = Inr (map Str accs)"
    and host: "table_name \<noteq> ''ancientmetagenome-environmental'' \<longrightarrow>
                 map_of (frame_columns samples) ''sample_host'' \<noteq> None"
    and key: "getitem library ''archive_sample_accession'' = Inr (map Str keys)"
  shows "is_merge_size_zero samples library table_name =
           Inr (\<not> (\<exists>a \<in> set accs. \<exists>p \<in> set (split_on CHR '','' a). p \<in> set keys))"
proof -
  let ?idx = "frame_index samples"
  let ?others = "samples\<lparr>frame_columns :=
                     filter (\<lambda>cv. fst cv \<noteq> ''archive_accession'') (frame_columns samples)\<rparr>"
  let ?entries = "join_index (split_stack ?idx (map Str accs)) ?idx"
  let ?st = "joined_frame ?entries ?others"
  let ?pieces = "map (\<lambda>e. fst (snd e)) ?entries"
  have mo: "map_of (frame_columns samples) ''archive_accession'' = Some (map Str accs)"
    using col by (auto simp: getitem_def split: option.splits)
  then have "(''archive_accession'', map Str accs) \<in> set (frame_columns samples)"
    by (rule map_of_SomeD)
  with wf have len: "length ?idx = length accs"
    by (auto simp: well_formed_def list_all_iff)
  with s0 have ne: "accs \<noteq> []" by (auto simp: shape0_def)
  have st: "stacked_samples samples = Inr ?st"
    by (rule stacked_samples_ok [OF col ne])
  have rk: "getitem ?st ''archive_accession'' = Inr (map Str ?pieces)"
    by (simp add: getitem_joined_accession)
  have hostcol: "table_name \<notin> set [''ancientmetagenome-environmental''] \<longrightarrow>
           (\<exists>vs. getitem ?st ''sample_host'' = Inr vs)"
  proof
    assume "table_name \<notin> set [''ancientmetagenome-environmental'']"
    with host have "map_of (frame_columns samples) ''sample_host'' \<noteq> None" by simp
    then have "map_of (frame_columns ?others) ''sample_host'' \<noteq> None"
      by (simp add: map_of_filter_other)
    then show "\<exists>vs. getitem ?st ''sample_host'' = Inr vs"
      by (rule getitem_joined_other) simp
  qed
  from getitems_right_key [OF rk hostcol] obtain right where
    right: "getitems ?st
           (if table_name \<in> set [''ancientmetagenome-environmental'']
            then [''archive_accession'']
            else [''archive_accession'', ''sample_host'']) = Inr right"
    and rkey: "getitem right ''archive_accession'' = Inr (map Str ?pieces)" by blast
  have pieces: "set ?pieces = (\<Union>a \<in> set accs. set (split_on CHR '','' a))"
    using join_index_pieces [of "split_stack ?idx (map Str accs)" ?idx]
          split_stack_pieces [OF len]
    by simp
  obtain a0 as where "accs = a0 # as" using ne by (cases accs) auto
  then have "set (split_on CHR '','' a0) \<subseteq> set ?pieces" using pieces by auto
  moreover have "set (split_on CHR '','' a0) \<noteq> {}" using split_on_nonempty [of "CHR '',''" a0] by simp
  ultimately have pne: "?pieces \<noteq> []" by auto
  have mg: "merge_on (map Str keys) (map Str ?pieces) =
              Inr (merge_pairs (map Str keys) (map Str ?pieces))"
    by (rule merge_on_strings [OF pne])
  have res: "is_merge_size_zero samples library table_name =
               Inr (merge_pairs (map Str keys) (map Str ?pieces) = [])"
    by (rule is_merge_size_zero_eval [OF s0 l0 st right key rkey mg])
  have "merge_pairs (map Str keys) (map Str ?pieces) = [] \<longleftrightarrow>
          set (map Str keys) \<inter> set (map Str ?pieces) = {}"
    by (rule merge_pairs_empty)
  also have "\<dots> \<longleftrightarrow> set keys \<inter> set ?pieces = {}"
    by (simp only: set_map Str_image_disjoint)
  also have "\<dots> \<longleftrightarrow> \<not> (\<exists>a \<in> set accs. \<exists>p \<in> set (split_on CHR '','' a). p \<in> set keys)"
    unfolding pieces by blast
  finally show ?thesis using res by simp
qed

text \<open>
  Claim C3, as the code has it. For a samples table without the column \<open>sample_host\<close>
  under a table category other than the environmental one, the function returns neither
  true nor false: the selection of the columns \<open>archive_accession\<close> and \<open>sample_host\<close>
  raises \<open>KeyError\<close>, although the only accession of the samples matches a library.
\<close>

theorem is_merge_size_zero_missing_host:
  "is_merge_size_zero hostless_samples (example_library_key [Str ''SRS1'', Str ''SRS9''])
     ''ancientmetagenome-hostassociated'' = Inl (KeyError ''sample_host'')"
  by code_simp

text \<open>
  Claim C3, amended. \<open>is_merge_size_zero\<close> returns true when the samples table or the
  libraries table has no rows, whatever else they hold. For tables with rows that carry
  the columns the function reads (a cell for every row and string accessions in
  \<open>archive_accession\<close> of the samples, string accessions in \<open>archive_sample_accession\<close>
  of the libraries, and \<open>sample_host\<close> in the samples unless the table category is the
  environmental one), it returns true when no piece of a comma-separated
  \<open>archive_accession\<close> is the \<open>archive_sample_accession\<close> of a library row, and false
  when some piece is.
\<close>

theorem is_merge_size_zero_cases:
  "(shape0 samples = 0 \<or> shape0 library = 0 \<longrightarrow>
      is_merge_size_zero samples library table_name = Inr True) \<and>
   (shape0 samples \<noteq> 0 \<and> shape0 library \<noteq> 0 \<and> well_formed samples \<and>
    getitem samples ''archive_accession'' = Inr (map Str accs) \<and>
    (table_name \<noteq> ''ancientmetagenome-environmental'' \<longrightarrow>
       map_of (frame_columns samples) ''sample_host'' \<noteq> None) \<and>
    getitem library ''archive_sample_accession'' = Inr (map Str keys) \<longrightarrow>
      is_merge_size_zero samples library table_name =
        Inr (\<not> (\<exists>a \<in> set accs. \<exists>p \<in> set (split_on CHR '','' a). p \<in> set keys)))"
proof (intro conjI impI)
  assume "shape0 samples = 0 \<or> shape0 library = 0"
  then show "is_merge_size_zero samples library table_name = Inr True"
    unfolding is_merge_size_zero_def by simp
next
  assume h: "shape0 samples \<noteq> 0 \<and> shape0 library \<noteq> 0 \<and> well_formed samples \<and>
    getitem samples ''archive_accession'' = Inr (map Str accs) \<and>
    (table_name \<noteq> ''ancientmetagenome-environmental'' \<longrightarrow>
       map_of (frame_columns samples) ''sample_host'' \<noteq> None) \<and>
    getitem library ''archive_sample_accession'' = Inr (map Str keys)"
  show "is_merge_size_zero samples library table_name =
        Inr (\<not> (\<exists>a \<in> set accs. \<exists>p \<in> set (split_on CHR '','' a). p \<in> set keys))"
    by (rule is_merge_size_zero_nonempty) (use h in blast)+
qed

theorem is_merge_size_zero_cases_witness:
  "shape0 empty_frame = 0 \<and>
   is_merge_size_zero empty_frame (example_library_key [Str ''SRS2'', Str ''SRS9''])
     ''ancientmetagenome-hostassociated'' = Inr True \<and>
   shape0 example_samples \<noteq> 0 \<and> well_formed example_samples \<and>
   is_merge_size_zero example_samples (example_library_key [Str ''SRS8'', Str ''SRS9''])
     ''ancientmetagenome-hostassociated'' = Inr True \<and>
   is_merge_size_zero example_samples (example_library_key [Str ''SRS2'', Str ''SRS9''])
     ''ancientmetagenome-hostassociated'' = Inr False"
proof -
  let ?t = "''ancientmetagenome-hostassociated''"
  let ?accs = "[''SRS1,SRS2'', ''SRS3'']"
  have e: "shape0 empty_frame = 0" by (simp add: shape0_def empty_frame_def)
  have r0: "is_merge_size_zero empty_frame (example_library_key [Str ''SRS2'', Str ''SRS9'']) ?t = Inr True"
    using is_merge_size_zero_cases [of empty_frame "example_library_key [Str ''SRS2'', Str ''SRS9'']" ?t]
          e by blast
  have s: "shape0 example_samples \<noteq> 0" by (simp add: shape0_def example_samples_def)
  have w: "well_formed example_samples" by (simp add: well_formed_def example_samples_def)
  have c: "getitem example_samples ''archive_accession'' = Inr (map Str ?accs)"
    by (simp add: getitem_def example_samples_def)
  have h: "?t \<noteq> ''ancientmetagenome-environmental'' \<longrightarrow>
             map_of (frame_columns example_samples) ''sample_host'' \<noteq> None"
    by (simp add: example_samples_def)
  have l: "shape0 (example_library_key k) \<noteq> 0" for k
    by (simp add: shape0_def example_library_key_def)
  have k: "getitem (example_library_key (map Str ks)) ''archive_sample_accession'' = Inr (map Str ks)" for ks
    by (simp add: getitem_def example_library_key_def)
  have p1: "split_on CHR '','' ''SRS1,SRS2'' = [''SRS1'', ''SRS2'']" by code_simp
  have p2: "split_on CHR '','' ''SRS3'' = [''SRS3'']" by code_simp
  have "is_merge_size_zero example_samples (example_library_key (map Str [''SRS8'', ''SRS9''])) ?t =
          Inr (\<not> (\<exists>a \<in> set ?accs. \<exists>p \<in> set (split_on CHR '','' a). p \<in> set [''SRS8'', ''SRS9'']))"
    using is_merge_size_zero_cases
            [of example_samples "example_library_key (map Str [''SRS8'', ''SRS9''])" ?t ?accs
                "[''SRS8'', ''SRS9'']"]
          s w c h l k
    by blast
  then have r1: "is_merge_size_zero example_samples (example_library_key [Str ''SRS8'', Str ''SRS9'']) ?t =
                   Inr True"
    by (simp add: p1 p2)
  have "is_merge_size_zero example_samples (example_library_key (map Str [''SRS2'', ''SRS9''])) ?t =
          Inr (\<not> (\<exists>a \<in> set ?accs. \<exists>p \<in> set (split_on CHR '','' a). p \<in> set [''SRS2'', ''SRS9'']))"
    using is_merge_size_zero_cases
            [of example_samples "example_library_key (map Str [''SRS2'', ''SRS9''])" ?t ?accs
                "[''SRS2'', ''SRS9'']"]
          s w c h l k
    by blast
  then have r2: "is_merge_size_zero example_samples (example_library_key [Str ''SRS2'', Str ''SRS9'']) ?t =
                   Inr False"
    by (simp add: p1 p2)
  from e r0 s w r1 r2 show ?thesis by blast
qed

section \<open>Pipeline table shapers: what a call leaves of the caller's tables\<close>




















end
